theory Spec2Isabelle
  imports Main "HOL-Library.Word" "HOL-Library.Code_Target_Nat"
begin

unbundle bit_operations_syntax

section \<open>C strings and the ctype functions\<close>

text \<open>
  A C string is modelled by the list of its bytes; the terminating NUL is the end of the
  list. Reading through a pointer gives NUL at the end of the list, and a NUL byte inside the
  list reads as NUL too, so a list with an embedded NUL behaves as the C string that stops
  there. A pointer into a string is the suffix it points to.

  The program never calls \<open>setlocale\<close>, so the ctype functions are those of the "C"
  locale: only ASCII letters and digits are alphanumeric and only ASCII letters change case.
\<close>

definition char_code :: "char \<Rightarrow> nat" where
  "char_code c = of_char c"

definition NUL :: char where
  "NUL = CHR 0x00"

definition deref :: "string \<Rightarrow> char" where
  "deref p = (case p of [] \<Rightarrow> NUL | c # _ \<Rightarrow> c)"

definition isdigit :: "char \<Rightarrow> bool" where
  "isdigit c = (48 \<le> char_code c \<and> char_code c \<le> 57)"

definition isupper :: "char \<Rightarrow> bool" where
  "isupper c = (65 \<le> char_code c \<and> char_code c \<le> 90)"

definition islower :: "char \<Rightarrow> bool" where
  "islower c = (97 \<le> char_code c \<and> char_code c \<le> 122)"

definition isalnum :: "char \<Rightarrow> bool" where
  "isalnum c = (isdigit c \<or> isupper c \<or> islower c)"

definition isspace :: "char \<Rightarrow> bool" where
  "isspace c = (char_code c = 32 \<or> (9 \<le> char_code c \<and> char_code c \<le> 13))"

definition toupper :: "char \<Rightarrow> char" where
  "toupper c = (if islower c then char_of (char_code c - 32) else c)"

definition tolower :: "char \<Rightarrow> char" where
  "tolower c = (if isupper c then char_of (char_code c + 32) else c)"

text \<open>
  \<open>strncasecmp\<close> of the C library: compares at most \<open>n\<close> bytes, ignoring case, and stops
  at the first difference or at a NUL. The result is zero exactly when the compared bytes agree.
\<close>

fun strncasecmp :: "string \<Rightarrow> string \<Rightarrow> nat \<Rightarrow> int" where
  "strncasecmp s1 s2 0 = 0"
| "strncasecmp s1 s2 (Suc n) =
     (let c1 = tolower (deref s1); c2 = tolower (deref s2)
      in if c1 \<noteq> c2 then int (char_code c1) - int (char_code c2)
         else if c1 = NUL then 0
         else strncasecmp (tl s1) (tl s2) n)"

section \<open>Transport profiles\<close>

text \<open>
  \<open>GstRTSPProfile\<close> is a flags enumeration of the RTSP library
  (gst/rtsp/gstrtspdefs.h); its values are not part of this repository. Each profile is a
  single bit: AVP is bit 0, SAVP bit 1, AVPF bit 2 and SAVPF bit 3; zero is "unknown".
\<close>

type_synonym GstRTSPProfile = "32 word"

definition GST_RTSP_PROFILE_UNKNOWN :: GstRTSPProfile where
  "GST_RTSP_PROFILE_UNKNOWN = 0"

definition GST_RTSP_PROFILE_AVP :: GstRTSPProfile where
  "GST_RTSP_PROFILE_AVP = 1"

definition GST_RTSP_PROFILE_SAVP :: GstRTSPProfile where
  "GST_RTSP_PROFILE_SAVP = 2"

definition GST_RTSP_PROFILE_AVPF :: GstRTSPProfile where
  "GST_RTSP_PROFILE_AVPF = 4"

definition GST_RTSP_PROFILE_SAVPF :: GstRTSPProfile where
  "GST_RTSP_PROFILE_SAVPF = 8"

text \<open>
  \<open>parseProfile base result\<close> (lines 54 to 73). \<open>base\<close> is the suffix of the profile
  string the caller points at. The local \<open>cursor\<close> is kept as its distance from
  \<open>base\<close>, so that \<open>cursor == base\<close> is \<open>cursor = 0\<close>. The function returns the distance
  of the returned pointer from \<open>base\<close> together with the new value of \<open>*result\<close>.
  In the feedback branch \<open>cursor++ == base\<close> compares before it increments, and the
  pointer returned is three past the incremented cursor.
\<close>

definition parseProfile :: "string \<Rightarrow> GstRTSPProfile \<Rightarrow> nat \<times> GstRTSPProfile" where
  "parseProfile base result =
     (let cursor = (if toupper (deref base) = CHR ''S'' then 1 else 0)
      in if strncasecmp (drop cursor base) ''AVP'' 3 \<noteq> 0 then (cursor, result)
         else if toupper (deref (drop (cursor + 3) base)) = CHR ''F''
           then (let profile = (if cursor = 0 then GST_RTSP_PROFILE_AVPF
                                else GST_RTSP_PROFILE_SAVPF)
                 in (cursor + 1 + 3, result OR profile))
           else (let profile = (if cursor = 0 then GST_RTSP_PROFILE_AVP
                                else GST_RTSP_PROFILE_SAVP)
                 in (cursor + 3, result OR profile)))"

text \<open>
  The \<open>while (*cursor)\<close> loop of \<open>main\<close> (lines 155 to 169), started with
  \<open>cursor = profiles\<close> and \<open>mask = 0\<close>. \<open>None\<close> is the jump to \<open>badProfiles\<close>
  (the message on standard error and \<open>return 3\<close>); \<open>Some msk\<close> is the value of \<open>mask\<close> with which
  the loop is left, through the loop condition or through \<open>break\<close>.
\<close>

function profiles_loop :: "string \<Rightarrow> GstRTSPProfile \<Rightarrow> GstRTSPProfile option" where
  "profiles_loop cursor msk =
     (if deref cursor = NUL then Some msk
      else (case parseProfile cursor 0 of
              (n, profile) \<Rightarrow>
                if profile = 0 then None
                else (let msk' = msk OR profile; cursor' = drop n cursor
                      in if deref cursor' = NUL then Some msk'
                         else if isalnum (deref cursor') then None
                         else profiles_loop (tl cursor') msk')))"
  by pat_completeness auto
termination
proof (relation "measure (\<lambda>(cursor, msk). length cursor)")
  show "wf (measure (\<lambda>(cursor, msk). length cursor))"
    by simp
next
  fix cursor :: string and msk :: GstRTSPProfile and x :: "nat \<times> GstRTSPProfile"
    and n :: nat and profile msk' :: GstRTSPProfile and cursor' :: string
  assume "cursor' = drop n cursor" and "deref cursor' \<noteq> NUL"
  then have "cursor' \<noteq> []" and "length cursor' \<le> length cursor"
    by (auto simp: deref_def)
  then show "((tl cursor', msk'), (cursor, msk)) \<in> measure (\<lambda>(cursor, msk). length cursor)"
    by (cases cursor') auto
qed

declare profiles_loop.simps [simp del]

text \<open>
  The \<open>if (profiles)\<close> block of \<open>main\<close> (lines 152 to 171) for a non-NULL
  \<open>profiles\<close>: \<open>None\<close> is \<open>return 3\<close>, \<open>Some msk\<close> is the argument with which
  \<open>gst_rtsp_media_factory_set_profiles\<close> is reached.
\<close>

definition parse_profiles :: "string \<Rightarrow> GstRTSPProfile option" where
  "parse_profiles profiles = profiles_loop profiles 0"

subsection \<open>The profile syntax in the words of the specification\<close>

text \<open>
  A valid token is one of AVP, AVPF, SAVP, SAVPF in any letter case, and each has its own
  flag. The secure pair is SAVP and SAVPF, the feedback pair AVPF and SAVPF.
\<close>

definition valid_token :: "string \<Rightarrow> bool" where
  "valid_token t = (map toupper t \<in> {''AVP'', ''AVPF'', ''SAVP'', ''SAVPF''})"

definition token_flag :: "string \<Rightarrow> GstRTSPProfile" where
  "token_flag t =
     (let u = map toupper t
      in if u = ''AVP'' then GST_RTSP_PROFILE_AVP
         else if u = ''AVPF'' then GST_RTSP_PROFILE_AVPF
         else if u = ''SAVP'' then GST_RTSP_PROFILE_SAVP
         else if u = ''SAVPF'' then GST_RTSP_PROFILE_SAVPF
         else GST_RTSP_PROFILE_UNKNOWN)"

definition secure_pair :: "GstRTSPProfile set" where
  "secure_pair = {GST_RTSP_PROFILE_SAVP, GST_RTSP_PROFILE_SAVPF}"

definition feedback_pair :: "GstRTSPProfile set" where
  "feedback_pair = {GST_RTSP_PROFILE_AVPF, GST_RTSP_PROFILE_SAVPF}"

text \<open>
  A profile spec built from a first token and further tokens, each preceded by one delimiter,
  and the bitwise OR of the flags of its tokens.
\<close>

definition profile_spec :: "string \<Rightarrow> (char \<times> string) list \<Rightarrow> string" where
  "profile_spec t dts = t @ concat (map (\<lambda>(d, t'). d # t') dts)"

definition spec_mask :: "string \<Rightarrow> (char \<times> string) list \<Rightarrow> GstRTSPProfile" where
  "spec_mask t dts = foldl (OR) (token_flag t) (map (\<lambda>(d, t'). token_flag t') dts)"

definition delimiter :: "char \<Rightarrow> bool" where
  "delimiter d = (\<not> isalnum d \<and> d \<noteq> NUL)"

text \<open>
  The maximal runs of alphanumeric characters of a string, in order: the words between its
  delimiters. \<open>split_runs cur s\<close> carries the run being read.
\<close>

fun split_runs :: "string \<Rightarrow> string \<Rightarrow> string list" where
  "split_runs cur [] = (if cur = [] then [] else [cur])"
| "split_runs cur (c # cs) =
     (if isalnum c then split_runs (cur @ [c]) cs
      else (if cur = [] then [] else [cur]) @ split_runs [] cs)"

definition alnum_runs :: "string \<Rightarrow> string list" where
  "alnum_runs s = split_runs [] s"

text \<open>
  The profile specs of the specification's algorithm, read off the string alone: the empty
  string, or a word that is a valid token, followed by nothing or by exactly one delimiter
  and again such a spec. It does not mention \<open>parseProfile\<close> or the loop.
\<close>

function profile_syntax :: "string \<Rightarrow> bool" where
  "profile_syntax s =
     (if s = [] then True
      else if \<not> valid_token (takeWhile isalnum s) then False
      else if dropWhile isalnum s = [] then True
      else profile_syntax (tl (dropWhile isalnum s)))"
  by pat_completeness auto
termination
proof (relation "measure length")
  show "wf (measure length)"
    by simp
next
  fix s :: string
  assume "dropWhile isalnum s \<noteq> []"
  moreover have "length (dropWhile isalnum s) \<le> length s"
    by (rule length_dropWhile_le)
  ultimately show "(tl (dropWhile isalnum s), s) \<in> measure length"
    by (cases "dropWhile isalnum s") auto
qed

declare profile_syntax.simps [simp del]

section \<open>The retransmission time\<close>

text \<open>
  \<open>strtoull\<close> of the C library (ISO C11, 7.22.1.4), which is not part of this repository.
  It skips white space, takes an optional sign, and, when \<open>base\<close> is 0, reads a leading
  \<open>0x\<close> or \<open>0X\<close> followed by a hexadecimal digit as base 16, any other leading \<open>0\<close> as
  base 8, and base 10 otherwise. It converts the longest run of digits of that base. With no
  digit there is no conversion: the value is 0 and the end pointer is \<open>nptr\<close>. A value
  above \<open>ULLONG_MAX\<close> gives \<open>ULLONG_MAX\<close>; a minus sign negates the value in the unsigned
  type. The result is the value and the end pointer, the suffix of \<open>nptr\<close> after the last
  digit converted.
\<close>

definition digit_value :: "char \<Rightarrow> nat" where
  "digit_value c =
     (if isdigit c then char_code c - 48
      else if isupper c then char_code c - 55
      else if islower c then char_code c - 87
      else 255)"

definition in_base :: "nat \<Rightarrow> char \<Rightarrow> bool" where
  "in_base b c = (digit_value c < b)"

definition ULLONG_MAX :: nat where
  "ULLONG_MAX = 18446744073709551615"

definition digits_value :: "nat \<Rightarrow> string \<Rightarrow> nat" where
  "digits_value b ds = foldl (\<lambda>acc c. acc * b + digit_value c) 0 ds"

text \<open>The parts of the subject sequence, read at the pointer after the white space.\<close>

definition sign_length :: "string \<Rightarrow> nat" where
  "sign_length s = (if deref s = CHR ''-'' \<or> deref s = CHR ''+'' then 1 else 0)"

text \<open>Read at the pointer after the sign.\<close>

definition hex_prefix :: "nat \<Rightarrow> string \<Rightarrow> bool" where
  "hex_prefix base s =
     ((base = 0 \<or> base = 16) \<and> deref s = CHR ''0''
      \<and> toupper (deref (drop 1 s)) = CHR ''X''
      \<and> in_base 16 (deref (drop 2 s)))"

definition number_base :: "nat \<Rightarrow> string \<Rightarrow> nat" where
  "number_base base s =
     (if hex_prefix base s then 16
      else if base = 0 then (if deref s = CHR ''0'' then 8 else 10)
      else base)"

definition digits_start :: "nat \<Rightarrow> string \<Rightarrow> string" where
  "digits_start base s = drop (if hex_prefix base s then 2 else 0) s"

definition strtoull :: "string \<Rightarrow> nat \<Rightarrow> 64 word \<times> string" where
  "strtoull nptr base =
     (let s1 = dropWhile isspace nptr;
          s2 = drop (sign_length s1) s1;
          b = number_base base s2;
          digs = takeWhile (in_base b) (digits_start base s2)
      in if digs = [] then (0, nptr)
         else (let n = digits_value b digs
               in (if ULLONG_MAX < n then of_nat ULLONG_MAX
                   else if deref s1 = CHR ''-'' then - of_nat n
                   else of_nat n,
                   dropWhile (in_base b) (digits_start base s2))))"

text \<open>
  \<open>GST_MSECOND\<close> of the media library (gst/gstclock.h): the number of nanoseconds in a
  millisecond. Multiplied with a \<open>guint64\<close> the product is taken in 64-bit unsigned
  arithmetic.
\<close>

definition GST_MSECOND :: "64 word" where
  "GST_MSECOND = 1000000"

text \<open>
  The \<open>if (retransmitTime)\<close> block of \<open>main\<close> (lines 173 to 182) for a non-NULL
  \<open>retransmitTime\<close>. \<open>parse_retransMs\<close> is the conversion and its check
  \<open>*end || end == retransmitTime\<close>: \<open>None\<close> is \<open>return 4\<close>. Both pointers are
  suffixes of the same string, so they are equal exactly when they are equally long.
  \<open>retransmission_time\<close> is the argument of
  \<open>gst_rtsp_media_factory_set_retransmission_time\<close>.
\<close>

definition parse_retransMs :: "string \<Rightarrow> 64 word option" where
  "parse_retransMs retransmitTime =
     (case strtoull retransmitTime 0 of
        (retransMs, end_ptr) \<Rightarrow>
          if deref end_ptr \<noteq> NUL \<or> length end_ptr = length retransmitTime then None
          else Some retransMs)"

definition retransmission_time :: "string \<Rightarrow> 64 word option" where
  "retransmission_time retransmitTime =
     (case parse_retransMs retransmitTime of
        None \<Rightarrow> None
      | Some retransMs \<Rightarrow> Some (retransMs * GST_MSECOND))"

subsection \<open>Pure digit strings and the syntax of a duration\<close>

text \<open>A pure digit string and the number it denotes in decimal.\<close>

definition pure_digits :: "string \<Rightarrow> bool" where
  "pure_digits s = (s \<noteq> [] \<and> list_all isdigit s)"

definition decimal_value :: "string \<Rightarrow> nat" where
  "decimal_value s = foldl (\<lambda>acc c. acc * 10 + (char_code c - 48)) 0 s"

text \<open>
  The strings the duration parser takes in full: white space, then an optional sign, then a
  numeral, which is a decimal numeral that does not start with 0, or a 0 followed by octal
  digits, or \<open>0x\<close> or \<open>0X\<close> followed by at least one hexadecimal digit.
\<close>

definition isodigit :: "char \<Rightarrow> bool" where
  "isodigit c = (48 \<le> char_code c \<and> char_code c \<le> 55)"

definition isxdigit :: "char \<Rightarrow> bool" where
  "isxdigit c =
     (isdigit c \<or> (65 \<le> char_code c \<and> char_code c \<le> 70)
      \<or> (97 \<le> char_code c \<and> char_code c \<le> 102))"

fun numeral_syntax :: "string \<Rightarrow> bool" where
  "numeral_syntax [] = False"
| "numeral_syntax (c # cs) =
     (if c = CHR ''0''
      then (list_all isodigit cs \<or>
            (case cs of
               x # d # ds \<Rightarrow> (x = CHR ''x'' \<or> x = CHR ''X'') \<and> list_all isxdigit (d # ds)
             | _ \<Rightarrow> False))
      else list_all isdigit (c # cs))"

fun strip_sign :: "string \<Rightarrow> string" where
  "strip_sign [] = []"
| "strip_sign (c # cs) = (if c = CHR ''+'' \<or> c = CHR ''-'' then cs else c # cs)"

definition duration_syntax :: "string \<Rightarrow> bool" where
  "duration_syntax s = numeral_syntax (strip_sign (dropWhile isspace s))"

section \<open>The program\<close>

subsection \<open>Option variables and the option table\<close>

text \<open>
  The file-scope option variables (lines 28 to 35). \<open>port\<close> and \<open>mount\<close> start as
  string literals and a string option only ever stores a non-NULL string, so they are never
  NULL; \<open>retransmitTime\<close> and \<open>profiles\<close> start as NULL, which is \<open>None\<close>.
\<close>

record globals =
  port :: string
  mount :: string
  retransmitTime :: "string option"
  profiles :: "string option"
  disable_rtcp :: bool

definition DEFAULT_RTSP_PORT :: string where
  "DEFAULT_RTSP_PORT = ''8554''"

definition DEFAULT_ENDPOINT :: string where
  "DEFAULT_ENDPOINT = ''video''"

definition initial_globals :: globals where
  "initial_globals =
     \<lparr>port = DEFAULT_RTSP_PORT, mount = ''/'' @ DEFAULT_ENDPOINT,
      retransmitTime = None, profiles = None, disable_rtcp = False\<rparr>"

text \<open>
  The \<open>arg_data\<close> column of \<open>entries\<close> (lines 37 to 52): the address at which the
  option parser stores the value of an option. For \<open>endpoint\<close> the table has
  \<open>&mount+1\<close>, which is the address of the pointer-sized slot that follows the variable
  \<open>mount\<close>, not an address inside the string \<open>mount\<close> points to.
\<close>

datatype arg_data =
  Addr_port | Addr_mount_plus_1 | Addr_profiles | Addr_retransmitTime | Addr_disable_rtcp

text \<open>
  The entries by long option name. The \<open>disable-rtcp\<close> entry is compiled in only when
  \<open>GST_VERSION_MINOR >= 20\<close>.
\<close>

definition entries :: "nat \<Rightarrow> (string \<times> arg_data) list" where
  "entries gst_version_minor =
     [(''port'', Addr_port),
      (''endpoint'', Addr_mount_plus_1),
      (''rtsp-profiles'', Addr_profiles),
      (''retransmission-time'', Addr_retransmitTime)]
     @ (if 20 \<le> gst_version_minor then [(''disable-rtcp'', Addr_disable_rtcp)] else [])"

text \<open>
  Which object lies in the slot after \<open>mount\<close> is decided when the program is linked. It
  is one of the other three string variables or memory the program does not read; it cannot
  be \<open>mount\<close> itself.
\<close>

datatype neighbour = Next_port | Next_retransmitTime | Next_profiles | Next_other

text \<open>
  The store the option parser performs for one option: a string option writes the pointer
  to (a copy of) its argument at \<open>arg_data\<close>, a flag option writes \<open>TRUE\<close>.
\<close>

fun store :: "neighbour \<Rightarrow> arg_data \<Rightarrow> string \<Rightarrow> globals \<Rightarrow> globals" where
  "store nb Addr_port v g = g\<lparr>port := v\<rparr>"
| "store nb Addr_profiles v g = g\<lparr>profiles := Some v\<rparr>"
| "store nb Addr_retransmitTime v g = g\<lparr>retransmitTime := Some v\<rparr>"
| "store nb Addr_disable_rtcp v g = g\<lparr>disable_rtcp := True\<rparr>"
| "store Next_port Addr_mount_plus_1 v g = g\<lparr>port := v\<rparr>"
| "store Next_retransmitTime Addr_mount_plus_1 v g = g\<lparr>retransmitTime := Some v\<rparr>"
| "store Next_profiles Addr_mount_plus_1 v g = g\<lparr>profiles := Some v\<rparr>"
| "store Next_other Addr_mount_plus_1 v g = g"

text \<open>
  The command line as the option parser of GLib sees it: the options of the table that occur,
  in order, by long name and with their argument (empty for a flag), the error GLib reports
  for anything else it rejects, and the arguments left in \<open>argv\<close> after \<open>argv[0]\<close>.
\<close>

record cli =
  options :: "(string \<times> string) list"
  glib_error :: "string option"
  positional :: "string list"

text \<open>
  \<open>g_option_context_parse\<close>: the stores of the options in order; an option that is not
  in the table is an error.
\<close>

fun parse_options ::
  "neighbour \<Rightarrow> (string \<times> arg_data) list \<Rightarrow> (string \<times> string) list \<Rightarrow> globals
     \<Rightarrow> string + globals" where
  "parse_options nb tab [] g = Inr g"
| "parse_options nb tab ((name, v) # opts) g =
     (case map_of tab name of
        None \<Rightarrow> Inl (''Unknown option --'' @ name)
      | Some a \<Rightarrow> parse_options nb tab opts (store nb a v g))"

definition g_option_context_parse ::
  "neighbour \<Rightarrow> (string \<times> arg_data) list \<Rightarrow> cli \<Rightarrow> string + globals" where
  "g_option_context_parse nb tab c =
     (case glib_error c of
        Some msg \<Rightarrow> Inl msg
      | None \<Rightarrow> parse_options nb tab (options c) initial_globals)"

subsection \<open>Library calls and the result of a run\<close>

text \<open>
  The calls \<open>main\<close> and \<open>timeout\<close> make into GLib and the RTSP server library, with
  the arguments that matter. The libraries themselves are outside the program; a run is
  described by the calls it makes, in order.
\<close>

datatype call =
    G_print string
  | G_printerr string
  | G_main_loop_new
  | Gst_rtsp_server_new
  | G_object_set_service string
  | Gst_rtsp_server_get_mount_points
  | Gst_rtsp_media_factory_new
  | Gst_rtsp_media_factory_set_profiles GstRTSPProfile
  | Gst_rtsp_media_factory_set_retransmission_time "64 word"
  | Gst_rtsp_media_factory_set_enable_rtcp bool
  | Gst_rtsp_media_factory_set_launch string
  | Gst_rtsp_media_factory_set_shared bool
  | Gst_rtsp_media_factory_set_do_retransmission bool
  | Gst_rtsp_mount_points_add_factory string
  | G_object_unref_mounts
  | Gst_rtsp_server_attach
  | G_timeout_add_seconds nat
  | G_main_loop_run
  | Gst_rtsp_server_get_session_pool
  | Gst_rtsp_session_pool_cleanup
  | G_object_unref_pool

text \<open>
  \<open>main\<close> returns an exit code, or it stays in \<open>g_main_loop_run\<close>.
\<close>

datatype outcome = Return int | Serving

type_synonym run = "outcome \<times> call list"

definition after :: "call list \<Rightarrow> run \<Rightarrow> run" where
  "after cs r = (fst r, cs @ snd r)"

text \<open>
  What the program does not decide: the version of the media library it is compiled against,
  the object after \<open>mount\<close>, whether \<open>gst_rtsp_server_attach\<close> succeeds, and whether
  \<open>g_main_loop_run\<close> ever returns.
\<close>

record env =
  GST_VERSION_MINOR :: nat
  slot_after_mount :: neighbour
  attach_succeeds :: bool
  loop_returns :: bool

definition banner :: string where
  "banner = ''Launch RTSP Server -- 11/21/23 brent@mbari.org''"

definition newline :: string where
  "newline = [CHR 0x0A]"

definition dquote :: string where
  "dquote = [CHR 0x22]"

subsection \<open>The session cleanup callback\<close>

text \<open>
  \<open>timeout\<close> (lines 93 to 103): its calls and its return value.
\<close>

definition timeout :: "call list \<times> bool" where
  "timeout =
     ([Gst_rtsp_server_get_session_pool, Gst_rtsp_session_pool_cleanup, G_object_unref_pool],
      True)"

text \<open>
  A timeout source of GLib calls its function at every interval until the function returns
  \<open>FALSE\<close>, and is destroyed then. \<open>fire n\<close> is the state of the source after \<open>n\<close>
  intervals: whether it is still scheduled, and the calls made so far.
\<close>

fun fire :: "nat \<Rightarrow> bool \<times> call list" where
  "fire 0 = (True, [])"
| "fire (Suc n) =
     (case fire n of
        (scheduled, cs) \<Rightarrow>
          if scheduled then (case timeout of (cs', again) \<Rightarrow> (again, cs @ cs'))
          else (False, cs))"

subsection \<open>main\<close>

text \<open>Lines 198 to 217: mounting, attaching, the cleanup timer and the main loop.\<close>

definition main_serve :: "env \<Rightarrow> globals \<Rightarrow> run" where
  "main_serve e g =
     after [Gst_rtsp_mount_points_add_factory (mount g), G_object_unref_mounts,
            Gst_rtsp_server_attach]
       (if \<not> attach_succeeds e
        then (Return 6, [G_print (''failed to attach the server'' @ newline)])
        else (if loop_returns e then Return 0 else Serving,
              [G_timeout_add_seconds 5,
               G_print (''Stream ready at rtsp://127.0.0.1:'' @ port g @ mount g @ newline),
               G_main_loop_run]))"

text \<open>
  Lines 184 to 196. \<open>gst_rtsp_media_factory_get_launch\<close> gives back the launch line
  that was just set.
\<close>

definition main_factory :: "env \<Rightarrow> globals \<Rightarrow> string \<Rightarrow> run" where
  "main_factory e g argv1 =
     after ((if 20 \<le> GST_VERSION_MINOR e
             then [Gst_rtsp_media_factory_set_enable_rtcp (\<not> disable_rtcp g)] else [])
            @ [Gst_rtsp_media_factory_set_launch argv1,
               Gst_rtsp_media_factory_set_shared True,
               G_print (''Pipeline: '' @ argv1 @ newline)])
       (main_serve e g)"

text \<open>Lines 173 to 182.\<close>

definition main_retransmit :: "env \<Rightarrow> globals \<Rightarrow> string \<Rightarrow> run" where
  "main_retransmit e g argv1 =
     (case retransmitTime g of
        None \<Rightarrow> main_factory e g argv1
      | Some rt \<Rightarrow>
          (case retransmission_time rt of
             None \<Rightarrow>
               (Return 4,
                [G_printerr (''Invalid retransmission time ('' @ dquote @ rt @ dquote @ '') specified''
                             @ newline)])
           | Some t \<Rightarrow>
               after [Gst_rtsp_media_factory_set_retransmission_time t]
                 (main_factory e g argv1)))"

text \<open>Lines 152 to 171.\<close>

definition main_profiles :: "env \<Rightarrow> globals \<Rightarrow> string \<Rightarrow> run" where
  "main_profiles e g argv1 =
     (case profiles g of
        None \<Rightarrow> main_retransmit e g argv1
      | Some ps \<Rightarrow>
          (case parse_profiles ps of
             None \<Rightarrow>
               (Return 3,
                [G_printerr (''Unknown RTSP profiles ('' @ dquote @ ps @ dquote @ '') specified'' @ newline)])
           | Some msk \<Rightarrow>
               after [Gst_rtsp_media_factory_set_profiles msk]
                 (main_retransmit e g argv1)))"

text \<open>Lines 136 to 150: the main loop, the server, its mount points and the factory.\<close>

definition main_create :: "env \<Rightarrow> globals \<Rightarrow> string \<Rightarrow> run" where
  "main_create e g argv1 =
     after [G_main_loop_new, Gst_rtsp_server_new, G_object_set_service (port g),
            Gst_rtsp_server_get_mount_points, Gst_rtsp_media_factory_new]
       (main_profiles e g argv1)"

text \<open>Lines 116 to 134, and the rest through the definitions above.\<close>

definition main :: "env \<Rightarrow> cli \<Rightarrow> run" where
  "main e c =
     after [G_print (banner @ newline)]
       (case g_option_context_parse (slot_after_mount e) (entries (GST_VERSION_MINOR e)) c of
          Inl msg \<Rightarrow> (Return (- 1), [G_printerr (''Error parsing options: '' @ msg @ newline)])
        | Inr g \<Rightarrow>
            (case positional c of
               [] \<Rightarrow> (Return (- 1), [G_printerr (''Error: empty pipeline'' @ newline)])
             | argv1 # _ \<Rightarrow> main_create e g argv1))"

text \<open>The library objects a run creates: the server, its mount points, the factory.\<close>

definition creates_object :: "call \<Rightarrow> bool" where
  "creates_object x =
     (x = Gst_rtsp_server_new \<or> x = Gst_rtsp_server_get_mount_points
      \<or> x = Gst_rtsp_media_factory_new)"

text \<open>
  The option variables with which \<open>main\<close> goes on after line 134: option parsing has
  succeeded and \<open>argv[1]\<close> is there. \<open>None\<close> otherwise.
\<close>

definition parsed_globals :: "env \<Rightarrow> cli \<Rightarrow> globals option" where
  "parsed_globals e c =
     (case g_option_context_parse (slot_after_mount e) (entries (GST_VERSION_MINOR e)) c of
        Inl msg \<Rightarrow> None
      | Inr g \<Rightarrow> (case positional c of [] \<Rightarrow> None | argv1 # _ \<Rightarrow> Some g))"

text \<open>The option strings of a run are C strings: they hold no NUL.\<close>

definition c_strings :: "globals \<Rightarrow> bool" where
  "c_strings g =
     ((case profiles g of None \<Rightarrow> True | Some ps \<Rightarrow> NUL \<notin> set ps) \<and>
      (case retransmitTime g of None \<Rightarrow> True | Some rt \<Rightarrow> NUL \<notin> set rt))"

text \<open>The paths a run mounts, the profile masks and the retransmission times it sets.\<close>

fun mounted_paths :: "call list \<Rightarrow> string list" where
  "mounted_paths [] = []"
| "mounted_paths (Gst_rtsp_mount_points_add_factory p # cs) = p # mounted_paths cs"
| "mounted_paths (x # cs) = mounted_paths cs"

fun profile_masks :: "call list \<Rightarrow> GstRTSPProfile list" where
  "profile_masks [] = []"
| "profile_masks (Gst_rtsp_media_factory_set_profiles m # cs) = m # profile_masks cs"
| "profile_masks (x # cs) = profile_masks cs"

fun retransmission_times :: "call list \<Rightarrow> 64 word list" where
  "retransmission_times [] = []"
| "retransmission_times (Gst_rtsp_media_factory_set_retransmission_time t # cs) =
     t # retransmission_times cs"
| "retransmission_times (x # cs) = retransmission_times cs"

text \<open>The messages a run prints on standard output.\<close>

fun printed :: "call list \<Rightarrow> string list" where
  "printed [] = []"
| "printed (G_print s # cs) = s # printed cs"
| "printed (x # cs) = printed cs"

text \<open>The calls of a run made before the cleanup timer is added.\<close>

definition before_timer :: "call list \<Rightarrow> call list" where
  "before_timer cs = takeWhile (\<lambda>x. x \<noteq> G_timeout_add_seconds 5) cs"

text \<open>
  The end-to-end example of the specification: \<open>--port 9000 --endpoint cam1
  --rtsp-profiles "AVP+SAVP" --retransmission-time 150\<close> with a test pipeline, on a build
  with RTCP control, with a successful attach and a main loop that does not return.
\<close>

definition example_cli :: cli where
  "example_cli =
     \<lparr>options = [(''port'', ''9000''), (''endpoint'', ''cam1''),
                 (''rtsp-profiles'', ''AVP+SAVP''), (''retransmission-time'', ''150'')],
      glib_error = None,
      positional = [''videotestsrc ! x264enc ! rtph264pay name=pay0 pt=96'']\<rparr>"

definition example_env :: "neighbour \<Rightarrow> env" where
  "example_env nb =
     \<lparr>GST_VERSION_MINOR = 22, slot_after_mount = nb, attach_succeeds = True,
      loop_returns = False\<rparr>"

section \<open>Facts about characters and about parseProfile\<close>

lemma char_eq_code: "(c = d) = (char_code c = char_code d)"
  by (simp add: char_code_def)

lemma char_code_toupper:
  "char_code (toupper c) = (if islower c then char_code c - 32 else char_code c)"
  by (auto simp: toupper_def char_code_def islower_def)

lemma char_code_tolower:
  "char_code (tolower c) = (if isupper c then char_code c + 32 else char_code c)"
proof -
  have "(of_char c :: nat) < 256" by simp
  then show ?thesis
    by (auto simp: tolower_def char_code_def isupper_def)
qed

lemma toupper_eq_F: "(toupper c = CHR ''F'') = (c = CHR ''F'' \<or> c = CHR ''f'')"
  unfolding char_eq_code [of _ "CHR ''F''"] char_eq_code [of _ "CHR ''f''"] char_code_toupper islower_def
  by (auto simp: char_code_def)

lemma tolower_eq_a: "(tolower c = CHR ''a'') = (toupper c = CHR ''A'')"
  unfolding char_eq_code [of _ "CHR ''a''"] char_eq_code [of _ "CHR ''A''"] char_code_toupper char_code_tolower islower_def isupper_def
  by (auto simp: char_code_def)

lemma tolower_eq_v: "(tolower c = CHR ''v'') = (toupper c = CHR ''V'')"
  unfolding char_eq_code [of _ "CHR ''v''"] char_eq_code [of _ "CHR ''V''"] char_code_toupper char_code_tolower islower_def isupper_def
  by (auto simp: char_code_def)

lemma tolower_eq_p: "(tolower c = CHR ''p'') = (toupper c = CHR ''P'')"
  unfolding char_eq_code [of _ "CHR ''p''"] char_eq_code [of _ "CHR ''P''"] char_code_toupper char_code_tolower islower_def isupper_def
  by (auto simp: char_code_def)

lemma tolower_lits:
  "tolower (CHR ''A'') = CHR ''a''" "tolower (CHR ''V'') = CHR ''v''" "tolower (CHR ''P'') = CHR ''p''"
  unfolding char_eq_code [of "tolower _"] char_code_tolower isupper_def
  by (simp_all add: char_code_def)

lemma NUL_lits: "CHR ''a'' \<noteq> NUL" "CHR ''v'' \<noteq> NUL" "CHR ''p'' \<noteq> NUL"
  "NUL \<noteq> CHR ''F''" "NUL \<noteq> CHR ''S''"
  by (simp_all add: NUL_def)

lemma toupper_NUL: "toupper NUL = NUL"
  by (simp add: toupper_def islower_def NUL_def char_code_def)

lemma tolower_NUL: "tolower NUL = NUL"
  by (simp add: tolower_def isupper_def NUL_def char_code_def)

lemma code_diff_zero: "(int (char_code c1) - int (char_code c2) = 0) = (c1 = c2)"
  by (simp add: char_code_def)

lemma char_code_inj: "(char_code c1 = char_code c2) = (c1 = c2)"
  by (simp add: char_code_def)

lemma strncasecmp_Cons:
  assumes "tolower x \<noteq> NUL"
  shows "(strncasecmp s (x # xs) (Suc n) = 0) =
         (\<exists>a s'. s = a # s' \<and> tolower a = tolower x \<and> strncasecmp s' xs n = 0)"
proof (cases s)
  case Nil
  with assms show ?thesis
    by (auto simp: deref_def tolower_NUL Let_def code_diff_zero char_code_inj)
next
  case (Cons a s')
  with assms show ?thesis
    by (auto simp: deref_def Let_def code_diff_zero char_code_inj)
qed

lemma strncasecmp_AVP:
  "(strncasecmp s ''AVP'' 3 = 0) =
   (\<exists>a b c rest. s = a # b # c # rest \<and> toupper a = CHR ''A'' \<and> toupper b = CHR ''V''
      \<and> toupper c = CHR ''P'')"
proof -
  have "(strncasecmp s ''AVP'' (Suc (Suc (Suc 0))) = 0) =
   (\<exists>a b c rest. s = a # b # c # rest \<and> toupper a = CHR ''A'' \<and> toupper b = CHR ''V''
      \<and> toupper c = CHR ''P'')"
    by (simp only: strncasecmp_Cons tolower_lits NUL_lits not_False_eq_True
          strncasecmp.simps(1) tolower_eq_a tolower_eq_v tolower_eq_p) auto
  then show ?thesis by (simp only: numeral_3_eq_3)
qed

lemma valid_token_cases:
  "valid_token t =
   (\<exists>a v p. toupper a = CHR ''A'' \<and> toupper v = CHR ''V'' \<and> toupper p = CHR ''P'' \<and>
      (t = [a, v, p] \<or> (\<exists>f. toupper f = CHR ''F'' \<and> t = [a, v, p, f]) \<or>
       (\<exists>s. toupper s = CHR ''S'' \<and> (t = [s, a, v, p] \<or>
          (\<exists>f. toupper f = CHR ''F'' \<and> t = [s, a, v, p, f])))))"
  unfolding valid_token_def
  by (auto simp: map_eq_Cons_conv)

lemma toupper_F_isalnum: "toupper c = CHR ''F'' \<Longrightarrow> isalnum c"
  unfolding toupper_eq_F by (auto simp: isalnum_def isupper_def islower_def char_code_def)

lemma flag_values:
  "GST_RTSP_PROFILE_AVP \<noteq> 0" "GST_RTSP_PROFILE_SAVP \<noteq> 0"
  "GST_RTSP_PROFILE_AVPF \<noteq> 0" "GST_RTSP_PROFILE_SAVPF \<noteq> 0"
  by (simp_all add: GST_RTSP_PROFILE_AVP_def GST_RTSP_PROFILE_SAVP_def
        GST_RTSP_PROFILE_AVPF_def GST_RTSP_PROFILE_SAVPF_def)

lemma toupper_distinct:
  "toupper c = CHR ''A'' \<Longrightarrow> toupper c \<noteq> CHR ''S''"
  "toupper c = CHR ''P'' \<Longrightarrow> toupper c \<noteq> CHR ''F''"
  by simp_all

lemma parseProfile_token:
  assumes "valid_token t" and "\<not> isalnum (deref rest)"
  shows "parseProfile (t @ rest) r = (length t, r OR token_flag t)"
proof -
  from assms(2) have nf: "toupper (deref rest) \<noteq> CHR ''F''"
    using toupper_F_isalnum by blast
  from assms(1) obtain a v p where
    avp: "toupper a = CHR ''A''" "toupper v = CHR ''V''" "toupper p = CHR ''P''" and
    t: "t = [a, v, p] \<or> (\<exists>f. toupper f = CHR ''F'' \<and> t = [a, v, p, f]) \<or>
       (\<exists>s. toupper s = CHR ''S'' \<and> (t = [s, a, v, p] \<or>
          (\<exists>f. toupper f = CHR ''F'' \<and> t = [s, a, v, p, f])))"
    unfolding valid_token_cases by blast
  from t show ?thesis
    using avp nf
    by (auto simp: parseProfile_def strncasecmp_AVP token_flag_def deref_def Let_def toupper_distinct)
qed

lemma parseProfile_success:
  assumes "parseProfile s 0 = (n, p)" and "p \<noteq> 0"
  shows "n \<le> length s \<and> valid_token (take n s) \<and> p = token_flag (take n s)"
proof (cases "toupper (deref s) = CHR ''S''")
  case True
  with assms have m: "strncasecmp (drop 1 s) ''AVP'' 3 = 0"
    by (auto simp: parseProfile_def split: if_splits)
  then obtain a b c rest where d: "drop 1 s = a # b # c # rest" and
    avp: "toupper a = CHR ''A''" "toupper b = CHR ''V''" "toupper c = CHR ''P''"
    unfolding strncasecmp_AVP by blast
  from d True obtain x where s: "s = x # a # b # c # rest" and x: "toupper x = CHR ''S''"
    by (cases s) (auto simp: deref_def)
  show ?thesis
    using assms avp x unfolding s
    by (cases rest)
       (auto simp: parseProfile_def strncasecmp_AVP token_flag_def deref_def Let_def
          valid_token_cases toupper_NUL NUL_lits split: if_splits)
next
  case False
  with assms have m: "strncasecmp s ''AVP'' 3 = 0"
    by (auto simp: parseProfile_def split: if_splits)
  then obtain a b c rest where s: "s = a # b # c # rest" and
    avp: "toupper a = CHR ''A''" "toupper b = CHR ''V''" "toupper c = CHR ''P''"
    unfolding strncasecmp_AVP by blast
  show ?thesis
    using assms avp unfolding s
    by (cases rest)
       (auto simp: parseProfile_def strncasecmp_AVP token_flag_def deref_def Let_def
          valid_token_cases toupper_NUL NUL_lits split: if_splits)
qed

lemma isupper_toupper_alnum: "isupper (toupper c) \<Longrightarrow> isalnum c"
  by (auto simp: isalnum_def isupper_def islower_def char_code_toupper split: if_splits)

lemma isupper_lits:
  "isupper (CHR ''A'')" "isupper (CHR ''V'')" "isupper (CHR ''P'')" "isupper (CHR ''S'')"
  "isupper (CHR ''F'')"
  by (simp_all add: isupper_def char_code_def)

lemma toupper_lit_alnum:
  "toupper c = CHR ''A'' \<Longrightarrow> isalnum c" "toupper c = CHR ''V'' \<Longrightarrow> isalnum c"
  "toupper c = CHR ''P'' \<Longrightarrow> isalnum c" "toupper c = CHR ''S'' \<Longrightarrow> isalnum c"
  "toupper c = CHR ''F'' \<Longrightarrow> isalnum c"
  using isupper_toupper_alnum [of c] isupper_lits by simp_all

lemma valid_token_alnum: "valid_token t \<Longrightarrow> t \<noteq> [] \<and> (\<forall>c \<in> set t. isalnum c)"
  unfolding valid_token_cases by (auto simp: toupper_lit_alnum)

lemma NUL_not_alnum: "\<not> isalnum NUL"
  by (simp add: isalnum_def isdigit_def isupper_def islower_def NUL_def char_code_def)

lemma valid_token_deref: "valid_token t \<Longrightarrow> deref (t @ rest) \<noteq> NUL"
  using valid_token_alnum [of t] NUL_not_alnum by (cases t) (auto simp: deref_def)

lemma token_flag_nonzero: "valid_token t \<Longrightarrow> token_flag t \<noteq> 0"
  by (auto simp: valid_token_def token_flag_def flag_values)

section \<open>Facts about the profile loop\<close>

lemma loop_step_token:
  assumes "valid_token t" and "\<not> isalnum (deref rest)"
  shows "profiles_loop (t @ rest) m =
         (if deref rest = NUL then Some (m OR token_flag t)
          else profiles_loop (tl rest) (m OR token_flag t))"
  using assms
  by (subst profiles_loop.simps)
     (simp add: valid_token_deref parseProfile_token token_flag_nonzero)

lemma loop_Nil: "profiles_loop [] m = Some m"
  by (subst profiles_loop.simps) (simp add: deref_def)

lemma loop_accepts:
  assumes "valid_token t" and "\<forall>(d, t') \<in> set dts. delimiter d \<and> valid_token t'"
    and "trail = [] \<or> (\<exists>d. delimiter d \<and> trail = [d])"
  shows "profiles_loop (t @ concat (map (\<lambda>(d, t'). d # t') dts) @ trail) m =
         Some (foldl (OR) (m OR token_flag t) (map (\<lambda>(d, t'). token_flag t') dts))"
  using assms
proof (induction dts arbitrary: t m)
  case Nil
  from Nil.prems(1) have "profiles_loop (t @ []) m = Some (m OR token_flag t)"
    by (subst loop_step_token) (auto simp: deref_def NUL_not_alnum)
  moreover have "profiles_loop (t @ [d]) m = Some (m OR token_flag t)" if "delimiter d" for d
    using Nil.prems(1) that
    by (subst loop_step_token) (auto simp: deref_def delimiter_def loop_Nil)
  ultimately show ?case
    using Nil.prems(3) by auto
next
  case (Cons x dts)
  obtain d t' where x: "x = (d, t')" by (cases x)
  with Cons.prems have d: "delimiter d" and t': "valid_token t'" by auto
  have "profiles_loop (t @ (d # t' @ concat (map (\<lambda>(d, t'). d # t') dts) @ trail)) m =
        profiles_loop (t' @ concat (map (\<lambda>(d, t'). d # t') dts) @ trail) (m OR token_flag t)"
    using d Cons.prems(1) by (subst loop_step_token) (auto simp: deref_def delimiter_def)
  also have "\<dots> = Some (foldl (OR) ((m OR token_flag t) OR token_flag t')
                      (map (\<lambda>(d, t'). token_flag t') dts))"
    using Cons.prems t' by (intro Cons.IH) auto
  finally show ?case by (simp add: x)
qed

lemma split_runs_alnum:
  "\<forall>c \<in> set t. isalnum c \<Longrightarrow> split_runs cur (t @ s) = split_runs (cur @ t) s"
  by (induction t arbitrary: cur) auto

lemma alnum_runs_token:
  assumes "t \<noteq> []" and "\<forall>c \<in> set t. isalnum c"
  shows "alnum_runs t = [t]"
    and "\<not> isalnum d \<Longrightarrow> alnum_runs (t @ d # rest) = t # alnum_runs rest"
  using assms split_runs_alnum [of t "[]" "[]"] split_runs_alnum [of t "[]" "d # rest"]
  by (auto simp: alnum_runs_def)

lemma deref_NUL_free: "NUL \<notin> set s \<Longrightarrow> (deref s = NUL) = (s = [])"
  by (cases s) (auto simp: deref_def)

lemma loop_accepted_runs:
  "profiles_loop s m = Some m' \<Longrightarrow> NUL \<notin> set s \<Longrightarrow> \<forall>r \<in> set (alnum_runs s). valid_token r"
proof (induction s m rule: profiles_loop.induct)
  case (1 cursor msk)
  show ?case
  proof (cases "cursor = []")
    case True
    then show ?thesis by (simp add: alnum_runs_def)
  next
    case False
    with "1.prems" have nz: "deref cursor \<noteq> NUL" by (simp add: deref_NUL_free)
    obtain n p where pp: "parseProfile cursor 0 = (n, p)" by (cases "parseProfile cursor 0")
    from "1.prems"(1) nz pp have p: "p \<noteq> 0"
      by (subst (asm) profiles_loop.simps) (auto split: if_splits)
    from parseProfile_success [OF pp p] have n: "n \<le> length cursor" and
      v: "valid_token (take n cursor)" by auto
    let ?t = "take n cursor" and ?rest = "drop n cursor"
    have c: "cursor = ?t @ ?rest" by simp
    from valid_token_alnum [OF v] have t: "?t \<noteq> []" "\<forall>c \<in> set ?t. isalnum c" by auto
    show ?thesis
    proof (cases ?rest)
      case Nil
      then have "cursor = ?t" by simp
      with alnum_runs_token(1) [OF t] v show ?thesis by simp
    next
      case (Cons d rest)
      from "1.prems"(2) have "NUL \<notin> set ?rest" by (auto dest: in_set_dropD)
      with Cons have d: "d \<noteq> NUL" and r: "NUL \<notin> set rest" by auto
      from "1.prems"(1) nz pp p Cons d have nd: "\<not> isalnum d" and
        rec: "profiles_loop rest (msk OR p) = Some m'"
        by (subst (asm) profiles_loop.simps, auto simp: deref_def Let_def split: if_splits)+
      have "\<forall>r \<in> set (alnum_runs rest). valid_token r"
        using "1.IH" [OF nz pp [symmetric] p refl refl] rec Cons d nd r
        by (simp add: deref_def)
      moreover have "alnum_runs cursor = ?t # alnum_runs rest"
        using alnum_runs_token(2) [OF t nd, of rest] Cons c by metis
      ultimately show ?thesis using v by simp
    qed
  qed
qed

lemma loop_rejects:
  assumes "NUL \<notin> set s" and "\<exists>r \<in> set (alnum_runs s). \<not> valid_token r"
  shows "profiles_loop s m = None"
  using loop_accepted_runs [of s m] assms by (cases "profiles_loop s m") auto

lemma hd_last_token:
  assumes "valid_token t"
  shows "(token_flag t \<in> secure_pair) = (toupper (hd t) = CHR ''S'')"
    and "(token_flag t \<in> feedback_pair) = (toupper (last t) = CHR ''F'')"
proof -
  from assms obtain a v p where
    avp: "toupper a = CHR ''A''" "toupper v = CHR ''V''" "toupper p = CHR ''P''" and
    t: "t = [a, v, p] \<or> (\<exists>f. toupper f = CHR ''F'' \<and> t = [a, v, p, f]) \<or>
       (\<exists>s. toupper s = CHR ''S'' \<and> (t = [s, a, v, p] \<or>
          (\<exists>f. toupper f = CHR ''F'' \<and> t = [s, a, v, p, f])))"
    unfolding valid_token_cases by blast
  have vals: "GST_RTSP_PROFILE_AVP = 1" "GST_RTSP_PROFILE_SAVP = 2"
    "GST_RTSP_PROFILE_AVPF = 4" "GST_RTSP_PROFILE_SAVPF = 8"
    by (simp_all add: GST_RTSP_PROFILE_AVP_def GST_RTSP_PROFILE_SAVP_def
        GST_RTSP_PROFILE_AVPF_def GST_RTSP_PROFILE_SAVPF_def)
  from t avp show "(token_flag t \<in> secure_pair) = (toupper (hd t) = CHR ''S'')"
    by (auto simp: token_flag_def secure_pair_def vals)
  from t avp show "(token_flag t \<in> feedback_pair) = (toupper (last t) = CHR ''F'')"
    by (auto simp: token_flag_def feedback_pair_def vals)
qed

section \<open>Facts about runs of alphanumeric characters\<close>

lemma split_runs_current:
  "cur \<noteq> [] \<Longrightarrow> \<exists>r \<in> set (split_runs cur s). length cur \<le> length r"
proof (induction s arbitrary: cur)
  case Nil
  then show ?case by simp
next
  case (Cons c s)
  show ?case
  proof (cases "isalnum c")
    case True
    from Cons.IH [of "cur @ [c]"] obtain r where
      "r \<in> set (split_runs (cur @ [c]) s)" and "length (cur @ [c]) \<le> length r" by auto
    with True show ?thesis by (auto intro!: bexI [where x = r])
  next
    case False
    with Cons.prems show ?thesis by auto
  qed
qed

lemma split_runs_contains:
  assumes "x \<noteq> []" and "\<forall>c \<in> set x. isalnum c"
  shows "\<exists>r \<in> set (split_runs cur (pre @ x @ post)). length x \<le> length r"
proof (induction pre arbitrary: cur)
  case Nil
  from assms(1) have "cur @ x \<noteq> []" by simp
  from split_runs_current [OF this, of post] obtain r where
    "r \<in> set (split_runs (cur @ x) post)" and "length (cur @ x) \<le> length r" by auto
  then show ?case using split_runs_alnum [OF assms(2), of cur post]
    by (auto intro!: bexI [where x = r])
next
  case (Cons c pre)
  show ?case
  proof (cases "isalnum c")
    case True
    with Cons.IH [of "cur @ [c]"] show ?thesis by simp
  next
    case False
    with Cons.IH [of "[]"] show ?thesis by auto
  qed
qed

lemma valid_token_length: "valid_token t \<Longrightarrow> 3 \<le> length t \<and> length t \<le> 5"
  unfolding valid_token_cases by auto

lemma adjacent_tokens_run:
  assumes "valid_token t1" and "valid_token t2"
  shows "\<exists>r \<in> set (alnum_runs (pre @ t1 @ t2 @ post)). \<not> valid_token r"
proof -
  have "t1 @ t2 \<noteq> []" and "\<forall>c \<in> set (t1 @ t2). isalnum c"
    using valid_token_alnum [OF assms(1)] valid_token_alnum [OF assms(2)] by auto
  from split_runs_contains [OF this, of "[]" pre post] obtain r where
    r: "r \<in> set (alnum_runs (pre @ t1 @ t2 @ post))" and "length (t1 @ t2) \<le> length r"
    by (auto simp: alnum_runs_def)
  with valid_token_length [OF assms(1)] valid_token_length [OF assms(2)]
  have "5 < length r" by simp
  with valid_token_length [of r] have "\<not> valid_token r" by auto
  with r show ?thesis by blast
qed

section \<open>Facts about main\<close>

lemma fst_after [simp]: "fst (after cs r) = fst r"
  by (simp add: after_def)

lemma snd_after [simp]: "snd (after cs r) = cs @ snd r"
  by (simp add: after_def)

lemma mounted_paths_append [simp]: "mounted_paths (xs @ ys) = mounted_paths xs @ mounted_paths ys"
  by (induction xs rule: mounted_paths.induct) simp_all

lemma profile_masks_append [simp]: "profile_masks (xs @ ys) = profile_masks xs @ profile_masks ys"
  by (induction xs rule: profile_masks.induct) simp_all

lemma retransmission_times_append [simp]:
  "retransmission_times (xs @ ys) = retransmission_times xs @ retransmission_times ys"
  by (induction xs rule: retransmission_times.induct) simp_all

lemma main_parsed:
  "parsed_globals e c = Some g \<Longrightarrow>
   \<exists>argv1. main e c = after [G_print (banner @ newline)] (main_create e g argv1)"
  by (auto simp: parsed_globals_def main_def split: sum.splits list.splits)

lemma main_not_parsed:
  "parsed_globals e c = None \<Longrightarrow> fst (main e c) = Return (- 1) \<and>
     (\<forall>x \<in> set (snd (main e c)). \<exists>s. x = G_print s \<or> x = G_printerr s)"
  by (auto simp: parsed_globals_def main_def split: sum.splits list.splits)

lemmas main_defs = main_create_def main_profiles_def main_retransmit_def main_factory_def
  main_serve_def

lemma fst_main_create:
  "fst (main_create e g a) =
     (if (case profiles g of None \<Rightarrow> False | Some ps \<Rightarrow> parse_profiles ps = None)
      then Return 3
      else if (case retransmitTime g of None \<Rightarrow> False
               | Some rt \<Rightarrow> parse_retransMs rt = None)
      then Return 4
      else if \<not> attach_succeeds e then Return 6
      else if loop_returns e then Return 0
      else Serving)"
  by (simp add: main_defs retransmission_time_def split: option.splits)

lemma parsed_globals_None:
  "glib_error c \<noteq> None \<Longrightarrow> parsed_globals e c = None"
  "positional c = [] \<Longrightarrow> parsed_globals e c = None"
  by (auto simp: parsed_globals_def g_option_context_parse_def split: sum.splits)

lemma main_loop_run_iff:
  "(G_main_loop_run \<in> set (snd (main_create e g a))) = 
   (fst (main_create e g a) = Return 0 \<or> fst (main_create e g a) = Serving)"
  by (simp add: main_defs retransmission_time_def split: option.splits)

lemma profile_masks_main_create:
  "profile_masks (snd (main_create e g a)) =
     (case profiles g of None \<Rightarrow> []
      | Some ps \<Rightarrow> (case parse_profiles ps of None \<Rightarrow> [] | Some m \<Rightarrow> [m]))"
  by (simp add: main_defs split: option.splits)

lemma retransmission_times_main_create:
  "retransmission_times (snd (main_create e g a)) =
     (if (case profiles g of None \<Rightarrow> False | Some ps \<Rightarrow> parse_profiles ps = None) then []
      else (case retransmitTime g of None \<Rightarrow> []
            | Some rt \<Rightarrow> (case parse_retransMs rt of None \<Rightarrow> []
                          | Some v \<Rightarrow> [v * GST_MSECOND])))"
  by (simp add: main_defs retransmission_time_def split: option.splits)

lemma mounted_paths_main_create:
  "mounted_paths (snd (main_create e g a)) =
     (if fst (main_create e g a) = Return 3 \<or> fst (main_create e g a) = Return 4 then []
      else [mount g])"
  by (simp add: main_defs retransmission_time_def split: option.splits)

lemma no_do_retransmission_main_create:
  "Gst_rtsp_media_factory_set_do_retransmission b \<notin> set (snd (main_create e g a))"
  by (simp add: main_defs retransmission_time_def split: option.splits)

lemma timer_main_create:
  "(G_timeout_add_seconds k \<in> set (snd (main_create e g a))) =
     (k = 5 \<and> attach_succeeds e \<and> fst (main_create e g a) \<noteq> Return 3 \<and>
      fst (main_create e g a) \<noteq> Return 4)"
  by (auto simp add: main_defs retransmission_time_def split: option.splits)

lemma before_timer_main_create:
  "G_timeout_add_seconds 5 \<in> set (snd (main_create e g a)) \<Longrightarrow>
   Gst_rtsp_server_attach \<in> set (before_timer (G_print s # snd (main_create e g a)))"
  by (auto simp add: before_timer_def main_defs retransmission_time_def split: option.splits if_splits)

lemma store_mount: "mount (store nb a v g) = mount g"
  by (cases "(nb, a, v, g)" rule: store.cases) simp_all

lemma parse_options_mount: "parse_options nb tab opts g = Inr g' \<Longrightarrow> mount g' = mount g"
  by (induction nb tab opts g rule: parse_options.induct)
     (auto simp: store_mount split: option.splits)

lemma parsed_globals_mount: "parsed_globals e c = Some g \<Longrightarrow> mount g = ''/'' @ DEFAULT_ENDPOINT"
  by (auto simp: parsed_globals_def g_option_context_parse_def initial_globals_def
        split: sum.splits list.splits option.splits dest!: parse_options_mount)

lemma calls_not_parsed:
  assumes "parsed_globals e c = None"
  shows "mounted_paths (snd (main e c)) = []" and "profile_masks (snd (main e c)) = []"
    and "retransmission_times (snd (main e c)) = []"
    and "\<forall>x \<in> set (snd (main e c)). \<not> creates_object x"
    and "G_timeout_add_seconds k \<notin> set (snd (main e c))"
    and "Gst_rtsp_media_factory_set_do_retransmission b \<notin> set (snd (main e c))"
  using assms
  by (auto simp: parsed_globals_def main_def creates_object_def split: sum.splits list.splits)

lemma example_globals:
  "parsed_globals (example_env nb) example_cli =
     Some \<lparr>port = (if nb = Next_port then ''cam1'' else ''9000''), mount = ''/video'',
           retransmitTime = Some ''150'', profiles = Some ''AVP+SAVP'', disable_rtcp = False\<rparr>"
  by (cases nb)
     (simp_all add: parsed_globals_def example_env_def example_cli_def
        g_option_context_parse_def entries_def initial_globals_def DEFAULT_RTSP_PORT_def
        DEFAULT_ENDPOINT_def)

lemma example_profiles: "parse_profiles ''AVP+SAVP'' = Some 3"
  by code_simp

lemma example_retransMs: "parse_retransMs ''150'' = Some 150"
  by code_simp

lemma printed_append [simp]: "printed (xs @ ys) = printed xs @ printed ys"
  by (induction xs rule: printed.induct) simp_all

lemma printed_main_create:
  "fst (main_create e g a) = Serving \<Longrightarrow>
   printed (snd (main_create e g a)) =
     [''Pipeline: '' @ a @ newline,
      ''Stream ready at rtsp://127.0.0.1:'' @ port g @ mount g @ newline]"
  by (auto simp add: main_defs retransmission_time_def split: option.splits if_splits)

lemma main_create_eq:
  assumes "parsed_globals e c = Some g"
  shows "fst (main e c) = fst (main_create e g a)"
    and "profile_masks (snd (main e c)) = profile_masks (snd (main_create e g a))"
    and "retransmission_times (snd (main e c)) = retransmission_times (snd (main_create e g a))"
    and "(G_timeout_add_seconds k \<in> set (snd (main e c))) =
         (G_timeout_add_seconds k \<in> set (snd (main_create e g a)))"
proof -
  from main_parsed [OF assms] obtain argv1 where
    m: "main e c = after [G_print (banner @ newline)] (main_create e g argv1)" by blast
  show "fst (main e c) = fst (main_create e g a)"
    by (simp add: m fst_main_create)
  show "profile_masks (snd (main e c)) = profile_masks (snd (main_create e g a))"
    by (simp add: m profile_masks_main_create)
  show "retransmission_times (snd (main e c)) = retransmission_times (snd (main_create e g a))"
    by (simp add: m retransmission_times_main_create)
  show "(G_timeout_add_seconds k \<in> set (snd (main e c))) =
         (G_timeout_add_seconds k \<in> set (snd (main_create e g a)))"
    by (simp add: m timer_main_create fst_main_create)
qed

lemma concat_replicate_comm: "concat (replicate n xs) @ xs = xs @ concat (replicate n xs)"
  by (induction n) simp_all

lemma fire_all: "fire n = (True, concat (replicate n (fst timeout)))"
  by (induction n) (simp_all add: timeout_def concat_replicate_comm [symmetric])

section \<open>Facts about the duration parser\<close>

lemma in_base_8: "in_base 8 c = isodigit c"
  by (auto simp: in_base_def digit_value_def isodigit_def isdigit_def isupper_def islower_def)

lemma in_base_10: "in_base 10 c = isdigit c"
  by (auto simp: in_base_def digit_value_def isdigit_def isupper_def islower_def)

lemma in_base_16: "in_base 16 c = isxdigit c"
  by (auto simp: in_base_def digit_value_def isxdigit_def isdigit_def isupper_def islower_def)

lemma in_base_fun: "in_base 8 = isodigit" "in_base 10 = isdigit" "in_base 16 = isxdigit"
  by (rule ext, simp add: in_base_8 in_base_10 in_base_16)+

lemma toupper_eq_X: "(toupper c = CHR ''X'') = (c = CHR ''X'' \<or> c = CHR ''x'')"
  unfolding char_eq_code [of _ "CHR ''X''"] char_eq_code [of _ "CHR ''x''"] char_code_toupper islower_def
  by (auto simp: char_code_def)

lemma sign_not_NUL: "NUL \<noteq> CHR ''-''" "NUL \<noteq> CHR ''+''" "NUL \<noteq> CHR ''0''"
  by (simp_all add: NUL_def)

lemma strip_sign_drop: "drop (sign_length s) s = strip_sign s"
  by (cases s) (auto simp: sign_length_def deref_def sign_not_NUL)

lemma scan_all:
  assumes "NUL \<notin> set ds"
  shows "(takeWhile P ds \<noteq> [] \<and> deref (dropWhile P ds) = NUL) = (ds \<noteq> [] \<and> list_all P ds)"
proof -
  have "NUL \<notin> set (dropWhile P ds)"
    using assms set_dropWhileD by fastforce
  then have "(deref (dropWhile P ds) = NUL) = (dropWhile P ds = [])"
    by (rule deref_NUL_free)
  also have "\<dots> = list_all P ds"
    by (simp add: dropWhile_eq_Nil_conv list_all_iff)
  finally show ?thesis
    by (cases ds) (auto simp: list_all_iff)
qed

lemma x_not_octal: "\<not> isodigit (CHR ''x'')" "\<not> isodigit (CHR ''X'')"
  by (simp_all add: isodigit_def char_code_def)

lemma zero_digit: "isodigit (CHR ''0'')" "isdigit (CHR ''0'')"
  by (simp_all add: isodigit_def isdigit_def char_code_def)

lemma NUL_not_xdigit: "\<not> isxdigit NUL" "NUL \<noteq> CHR ''X''" "NUL \<noteq> CHR ''x''"
  by (simp_all add: isxdigit_def isdigit_def NUL_def char_code_def)

lemma numeral_scan:
  "(digits_start 0 s \<noteq> [] \<and> list_all (in_base (number_base 0 s)) (digits_start 0 s)) =
   numeral_syntax s"
proof (cases s)
  case Nil
  then show ?thesis by (simp add: digits_start_def)
next
  case (Cons c cs)
  show ?thesis
  proof (cases "c = CHR ''0''")
    case False
    with Cons show ?thesis
      by (simp add: digits_start_def number_base_def hex_prefix_def deref_def in_base_fun)
  next
    case True
    show ?thesis
    proof (cases "hex_prefix 0 s")
      case h: True
      with Cons True obtain x d ds where cs: "cs = x # d # ds" and
        x: "x = CHR ''X'' \<or> x = CHR ''x''" and d: "isxdigit d"
        by (cases cs; cases "tl cs")
           (auto simp: hex_prefix_def deref_def toupper_eq_X in_base_16 NUL_not_xdigit)
      with Cons True h show ?thesis
        by (auto simp: digits_start_def number_base_def in_base_fun x_not_octal)
    next
      case h: False
      have "\<not> (case cs of x # d # ds \<Rightarrow> (x = CHR ''x'' \<or> x = CHR ''X'') \<and> list_all isxdigit (d # ds)
               | _ \<Rightarrow> False)"
        using h Cons True
        by (auto simp: hex_prefix_def deref_def toupper_eq_X in_base_16 split: list.splits)
      with Cons True h show ?thesis
        by (simp add: digits_start_def number_base_def in_base_fun deref_def zero_digit)
    qed
  qed
qed

lemma length_strip_sign: "length (strip_sign s) \<le> length s"
  by (cases s) auto

lemma set_strip_sign: "set (strip_sign s) \<subseteq> set s"
  by (cases s) auto

lemma strtoull_0:
  "strtoull s 0 =
     (let s2 = strip_sign (dropWhile isspace s); b = number_base 0 s2; ds = digits_start 0 s2
      in if takeWhile (in_base b) ds = [] then (0, s)
         else (if ULLONG_MAX < digits_value b (takeWhile (in_base b) ds) then of_nat ULLONG_MAX
               else if deref (dropWhile isspace s) = CHR ''-''
                 then - of_nat (digits_value b (takeWhile (in_base b) ds))
               else of_nat (digits_value b (takeWhile (in_base b) ds)),
               dropWhile (in_base b) ds))"
  by (simp add: strtoull_def Let_def strip_sign_drop)

lemma parse_retransMs_scan:
  "parse_retransMs s =
     (let s2 = strip_sign (dropWhile isspace s); b = number_base 0 s2; ds = digits_start 0 s2
      in if takeWhile (in_base b) ds \<noteq> [] \<and> deref (dropWhile (in_base b) ds) = NUL
         then Some (fst (strtoull s 0)) else None)"
proof -
  define s2 where "s2 = strip_sign (dropWhile isspace s)"
  define b where "b = number_base 0 s2"
  define ds where "ds = digits_start 0 s2"
  have "length ds \<le> length s2"
    by (simp add: ds_def digits_start_def)
  also have "\<dots> \<le> length (dropWhile isspace s)"
    unfolding s2_def by (rule length_strip_sign)
  also have "\<dots> \<le> length s"
    by (rule length_dropWhile_le)
  finally have le: "length ds \<le> length s" .
  have "length (takeWhile (in_base b) ds) + length (dropWhile (in_base b) ds) = length ds"
    by (metis length_append takeWhile_dropWhile_id)
  with le have lt: "length (dropWhile (in_base b) ds) \<noteq> length s"
    if "takeWhile (in_base b) ds \<noteq> []"
    using that by (cases "takeWhile (in_base b) ds") auto
  show ?thesis
    using lt
    by (auto simp: parse_retransMs_def strtoull_0 Let_def s2_def [symmetric] b_def [symmetric]
          ds_def [symmetric])
qed

lemma accept_iff:
  assumes "NUL \<notin> set s"
  shows "(parse_retransMs s \<noteq> None) = duration_syntax s"
proof -
  define s2 where "s2 = strip_sign (dropWhile isspace s)"
  have "set (digits_start 0 s2) \<subseteq> set s2"
    by (auto simp: digits_start_def dest: in_set_dropD)
  also have "\<dots> \<subseteq> set (dropWhile isspace s)"
    unfolding s2_def by (rule set_strip_sign)
  also have "\<dots> \<subseteq> set s"
    by (auto dest: set_dropWhileD)
  finally have "NUL \<notin> set (digits_start 0 s2)"
    using assms by auto
  from scan_all [OF this, of "in_base (number_base 0 s2)"]
  have "(parse_retransMs s \<noteq> None) =
        (digits_start 0 s2 \<noteq> [] \<and> list_all (in_base (number_base 0 s2)) (digits_start 0 s2))"
    by (simp add: parse_retransMs_scan Let_def s2_def [symmetric])
  then show ?thesis
    by (simp add: numeral_scan duration_syntax_def s2_def)
qed

lemma isxdigit_digit: "isdigit c \<Longrightarrow> isxdigit c" "isodigit c \<Longrightarrow> isxdigit c"
  by (auto simp: isxdigit_def isdigit_def isodigit_def)

lemma numeral_syntax_last: "numeral_syntax s \<Longrightarrow> s \<noteq> [] \<and> isxdigit (last s)"
proof (cases s)
  case Nil
  then show "numeral_syntax s \<Longrightarrow> ?thesis" by simp
next
  case (Cons c cs)
  assume n: "numeral_syntax s"
  show ?thesis
  proof (cases "c = CHR ''0''")
    case False
    with n Cons have "list_all isdigit s" by simp
    then have "isdigit (last s)" using Cons by (simp add: list_all_iff)
    with Cons show ?thesis by (simp add: isxdigit_digit)
  next
    case True
    with n Cons consider (oct) "list_all isodigit cs"
      | (hex) x d ds where "cs = x # d # ds" "list_all isxdigit (d # ds)"
      by (auto split: list.splits)
    then show ?thesis
    proof cases
      case oct
      with True have "list_all isodigit (c # cs)" by (simp add: zero_digit)
      then have "isodigit (last (c # cs))" unfolding list_all_iff using last_in_set by blast
      with Cons show ?thesis by (simp add: isxdigit_digit)
    next
      case hex
      then have "isxdigit (last (d # ds))" unfolding list_all_iff using last_in_set by blast
      with Cons hex show ?thesis by simp
    qed
  qed
qed

lemma strip_sign_suffix: "\<exists>pre. s = pre @ strip_sign (dropWhile isspace s)"
proof -
  have "\<exists>p. t = p @ strip_sign t" for t
    by (cases t) (auto intro: exI [of _ "[]"] exI [of _ "[hd t]"])
  then obtain p where "dropWhile isspace s = p @ strip_sign (dropWhile isspace s)" by blast
  then have "s = (takeWhile isspace s @ p) @ strip_sign (dropWhile isspace s)"
    by (metis append.assoc takeWhile_dropWhile_id)
  then show ?thesis by blast
qed

lemma duration_syntax_last: "duration_syntax s \<Longrightarrow> s \<noteq> [] \<and> isxdigit (last s)"
proof -
  assume "duration_syntax s"
  then have n: "strip_sign (dropWhile isspace s) \<noteq> [] \<and>
                isxdigit (last (strip_sign (dropWhile isspace s)))"
    unfolding duration_syntax_def by (rule numeral_syntax_last)
  obtain pre where "s = pre @ strip_sign (dropWhile isspace s)"
    using strip_sign_suffix by blast
  with n show ?thesis by (metis append_is_Nil_conv last_appendR)
qed

lemma digits_value_decimal:
  "list_all isdigit s \<Longrightarrow>
   foldl (\<lambda>acc c. acc * 10 + digit_value c) a s = foldl (\<lambda>acc c. acc * 10 + (char_code c - 48)) a s"
  by (induction s arbitrary: a) (simp_all add: digit_value_def)

lemma digit_facts:
  assumes "isdigit c"
  shows "\<not> isspace c" and "c \<noteq> CHR ''+''" and "c \<noteq> CHR ''-''"
  using assms
  by (auto simp: isdigit_def isspace_def char_code_def)

lemma pure_digits_value:
  assumes "pure_digits s" and "hd s \<noteq> CHR ''0''" and "decimal_value s \<le> ULLONG_MAX"
  shows "parse_retransMs s = Some (of_nat (decimal_value s))"
proof -
  from assms(1) obtain c cs where s: "s = c # cs" and all: "list_all isdigit (c # cs)"
    by (cases s) (auto simp: pure_digits_def)
  from all have c: "isdigit c" by simp
  from assms(2) s have c0: "c \<noteq> CHR ''0''" by simp
  have s2: "strip_sign (dropWhile isspace s) = s"
    using digit_facts [OF c] s by simp
  have b: "number_base 0 s = 10" and ds: "digits_start 0 s = s"
    using c0 s by (simp_all add: number_base_def digits_start_def hex_prefix_def deref_def)
  have tw: "takeWhile (in_base 10) s = s" and dw: "dropWhile (in_base 10) s = []"
    using all s by (simp_all add: in_base_fun list_all_iff)
  have v: "digits_value 10 s = decimal_value s"
    using digits_value_decimal [of s 0] all s by (simp add: digits_value_def decimal_value_def)
  have neg: "deref (dropWhile isspace s) \<noteq> CHR ''-''"
    using digit_facts [OF c] s by (simp add: deref_def)
  have dw': "deref (dropWhile (in_base 10) s) = NUL"
    by (simp add: dw deref_def)
  have ne: "s \<noteq> []" using s by simp
  show ?thesis
    using assms(3) neg ne
    by (simp add: parse_retransMs_scan strtoull_0 Let_def s2 b ds tw dw' v)
qed

section \<open>The parsers and the syntax they accept\<close>

lemma takeWhile_word:
  assumes "\<forall>c \<in> set t. isalnum c" and "\<not> isalnum (deref rest)"
  shows "takeWhile isalnum (t @ rest) = t" and "dropWhile isalnum (t @ rest) = rest"
  using assms by (cases rest; simp add: deref_def)+

lemma deref_dropWhile: "\<not> isalnum (deref (dropWhile isalnum s))"
proof (cases "dropWhile isalnum s")
  case Nil
  then show ?thesis by (simp only: deref_def list.case NUL_not_alnum not_False_eq_True)
next
  case (Cons d r)
  then have "dropWhile isalnum s \<noteq> []" by simp
  from hd_dropWhile [OF this] Cons show ?thesis by (simp add: deref_def)
qed

lemma loop_syntax:
  "NUL \<notin> set s \<Longrightarrow> (profiles_loop s m \<noteq> None) = profile_syntax s"
proof (induction s arbitrary: m rule: length_induct)
  case (1 s)
  let ?t = "takeWhile isalnum s" and ?rest = "dropWhile isalnum s"
  have s: "s = ?t @ ?rest" by simp
  have nr: "\<not> isalnum (deref ?rest)" by (rule deref_dropWhile)
  have nul: "NUL \<notin> set ?rest" using "1.prems" by (auto dest: set_dropWhileD)
  show ?case
  proof (cases "s = []")
    case True
    then show ?thesis by (simp add: loop_Nil profile_syntax.simps)
  next
    case ne: False
    show ?thesis
    proof (cases "valid_token ?t")
      case True
      have step: "profiles_loop s m =
         (if deref ?rest = NUL then Some (m OR token_flag ?t)
          else profiles_loop (tl ?rest) (m OR token_flag ?t))"
        using loop_step_token [OF True nr, of m] by simp
      show ?thesis
      proof (cases "?rest = []")
        case True
        with step \<open>valid_token ?t\<close> ne show ?thesis
          by (simp add: deref_def profile_syntax.simps [of s])
      next
        case False
        then have d: "deref ?rest \<noteq> NUL" using nul by (simp add: deref_NUL_free)
        have "length (tl ?rest) < length s"
          using False length_dropWhile_le [of isalnum s] by (cases ?rest) auto
        moreover have "NUL \<notin> set (tl ?rest)"
          using nul False by (cases ?rest) auto
        ultimately have "(profiles_loop (tl ?rest) (m OR token_flag ?t) \<noteq> None) =
                         profile_syntax (tl ?rest)"
          using "1.IH" by blast
        with step d False \<open>valid_token ?t\<close> ne show ?thesis
          by (auto simp: profile_syntax.simps [of s])
      qed
    next
      case False
      have "profiles_loop s m = None"
      proof (rule ccontr)
        assume "profiles_loop s m \<noteq> None"
        then obtain m' where acc: "profiles_loop s m = Some m'" by auto
        from ne "1.prems" have nz: "deref s \<noteq> NUL" by (simp add: deref_NUL_free)
        obtain n p where pp: "parseProfile s 0 = (n, p)" by (cases "parseProfile s 0")
        from acc nz pp have p: "p \<noteq> 0"
          by (subst (asm) profiles_loop.simps) (auto split: if_splits)
        from parseProfile_success [OF pp p] have v: "valid_token (take n s)" by auto
        from acc nz pp p have "\<not> isalnum (deref (drop n s))"
          by (subst (asm) profiles_loop.simps)
             (auto simp: Let_def NUL_not_alnum split: if_splits)
        with takeWhile_word(1) [of "take n s" "drop n s"] valid_token_alnum [OF v]
        have "?t = take n s" by simp
        with v False show False by simp
      qed
      with False ne show ?thesis by (simp add: profile_syntax.simps [of s])
    qed
  qed
qed

lemma parse_profiles_syntax:
  "NUL \<notin> set ps \<Longrightarrow> (parse_profiles ps = None) = (\<not> profile_syntax ps)"
  using loop_syntax [of ps 0] by (auto simp: parse_profiles_def)

lemma parse_retransMs_syntax:
  "NUL \<notin> set rt \<Longrightarrow> (parse_retransMs rt = None) = (\<not> duration_syntax rt)"
  using accept_iff [of rt] by (cases "parse_retransMs rt") auto

section \<open>The profile parser\<close>

text \<open>
  C1. A profile spec made of valid tokens (AVP, AVPF, SAVP, SAVPF in any letter case), each
  two separated by exactly one delimiter (a character that is not alphanumeric), is accepted,
  and the mask is the bitwise OR of the flags of its tokens, whatever the delimiters and the
  letter case are. On each token \<open>parseProfile\<close> gives exactly the flag of the token; the
  flag is in the secure pair exactly when the token starts with S or s and in the feedback
  pair exactly when it ends with F or f.
\<close>

theorem profile_spec_mask:
  assumes "valid_token t" and "\<forall>(d, t') \<in> set dts. delimiter d \<and> valid_token t'"
  shows "parse_profiles (profile_spec t dts) = Some (spec_mask t dts) \<and>
         (\<forall>t' \<in> set (t # map snd dts).
            parseProfile t' 0 = (length t', token_flag t') \<and>
            (token_flag t' \<in> secure_pair) = (toupper (hd t') = CHR ''S'') \<and>
            (token_flag t' \<in> feedback_pair) = (toupper (last t') = CHR ''F''))"
proof -
  have "parse_profiles (profile_spec t dts) = Some (spec_mask t dts)"
    using loop_accepts [OF assms, of "[]" 0]
    by (simp add: parse_profiles_def profile_spec_def spec_mask_def)
  moreover have "parseProfile t' 0 = (length t', token_flag t') \<and>
            (token_flag t' \<in> secure_pair) = (toupper (hd t') = CHR ''S'') \<and>
            (token_flag t' \<in> feedback_pair) = (toupper (last t') = CHR ''F'')"
    if "t' \<in> set (t # map snd dts)" for t'
  proof -
    from that assms have v: "valid_token t'" by auto
    from parseProfile_token [OF v, of "[]" 0] have "parseProfile t' 0 = (length t', token_flag t')"
      by (simp add: deref_def NUL_not_alnum)
    with hd_last_token [OF v] show ?thesis by simp
  qed
  ultimately show ?thesis by blast
qed

text \<open>C1 at the spec \<open>avp+savpf\<close>: the mask is AVP together with SAVPF.\<close>

theorem profile_spec_mask_witness:
  "valid_token ''avp'' \<and> delimiter (CHR ''+'') \<and> valid_token ''savpf'' \<and>
   parse_profiles ''avp+savpf'' = Some (GST_RTSP_PROFILE_AVP OR GST_RTSP_PROFILE_SAVPF)"
proof -
  have h1: "valid_token ''avp''" by code_simp
  have h2: "\<forall>(d, t') \<in> set [(CHR ''+'', ''savpf'')]. delimiter d \<and> valid_token t'" by code_simp
  have "spec_mask ''avp'' [(CHR ''+'', ''savpf'')] = GST_RTSP_PROFILE_AVP OR GST_RTSP_PROFILE_SAVPF"
    by code_simp
  with profile_spec_mask [OF h1 h2] h1 h2 show ?thesis
    by (simp add: profile_spec_def)
qed

text \<open>
  C6 as stated fails: \<open>AVP+\<close> ends in one delimiter after a valid token and is accepted.
  After the delimiter is skipped the loop condition \<open>*cursor\<close> is tested before any token
  is matched, and it ends the loop at the end of the string.
\<close>

theorem trailing_delimiter_counterexample:
  "valid_token ''AVP'' \<and> delimiter (CHR ''+'') \<and> parse_profiles (''AVP'' @ [CHR ''+'']) = Some GST_RTSP_PROFILE_AVP"
  by code_simp

text \<open>
  C6, amended. A profile spec made of valid tokens separated by single delimiters and
  followed by one more delimiter is accepted, with the bitwise OR of the flags of its tokens
  as the mask.
\<close>

theorem trailing_delimiter_accepted:
  assumes "valid_token t" and "\<forall>(d, t') \<in> set dts. delimiter d \<and> valid_token t'"
    and "delimiter d"
  shows "parse_profiles (profile_spec t dts @ [d]) = Some (spec_mask t dts)"
  using loop_accepts [OF assms(1,2), of "[d]" 0] assms(3)
  by (simp add: parse_profiles_def profile_spec_def spec_mask_def)

text \<open>C6, amended, at the spec \<open>AVP,savp+\<close>.\<close>

theorem trailing_delimiter_accepted_witness:
  "valid_token ''AVP'' \<and> delimiter (CHR '','') \<and> valid_token ''savp'' \<and>
   delimiter (CHR ''+'') \<and>
   parse_profiles ''AVP,savp+'' = Some (GST_RTSP_PROFILE_AVP OR GST_RTSP_PROFILE_SAVP)"
proof -
  have h1: "valid_token ''AVP''" by code_simp
  have h2: "\<forall>(d, t') \<in> set [(CHR '','', ''savp'')]. delimiter d \<and> valid_token t'" by code_simp
  have h3: "delimiter (CHR ''+'')" by code_simp
  have "spec_mask ''AVP'' [(CHR '','', ''savp'')] = GST_RTSP_PROFILE_AVP OR GST_RTSP_PROFILE_SAVP"
    by code_simp
  with trailing_delimiter_accepted [OF h1 h2 h3] h1 h2 h3 show ?thesis
    by (simp add: profile_spec_def)
qed

lemmas example_defs = parsed_globals_def example_env_def example_cli_def
  g_option_context_parse_def entries_def initial_globals_def DEFAULT_RTSP_PORT_def
  DEFAULT_ENDPOINT_def

text \<open>
  C4. When \<open>main\<close> reaches the profile block with a profile string in which some word (a
  maximal run of alphanumeric characters) is not a valid token, the run returns 3 and never
  calls \<open>gst_rtsp_media_factory_set_profiles\<close>. This covers an unrecognized token, and it
  covers two valid tokens with no delimiter between them, which together form a word that is
  not a token. The profile string is a C string: it holds no NUL.
\<close>

theorem invalid_profiles_rejected:
  assumes "parsed_globals e c = Some g" and "profiles g = Some ps" and "NUL \<notin> set ps"
    and "(\<exists>r \<in> set (alnum_runs ps). \<not> valid_token r) \<or>
         (\<exists>pre t1 t2 post. ps = pre @ t1 @ t2 @ post \<and> valid_token t1 \<and> valid_token t2)"
  shows "parse_profiles ps = None \<and> fst (main e c) = Return 3 \<and>
         profile_masks (snd (main e c)) = []"
proof -
  from assms(4) have "\<exists>r \<in> set (alnum_runs ps). \<not> valid_token r"
    using adjacent_tokens_run by blast
  with assms(3) have "parse_profiles ps = None"
    unfolding parse_profiles_def by (rule loop_rejects)
  then show ?thesis
    using main_create_eq(1,2) [OF assms(1), of undefined] assms(2)
    by (simp add: fst_main_create profile_masks_main_create)
qed

text \<open>C4 at \<open>--rtsp-profiles AVPAVPF\<close>: exit code 3 and no mask set.\<close>

theorem invalid_profiles_rejected_witness:
  "parsed_globals (example_env Next_other)
     (example_cli\<lparr>options := [(''rtsp-profiles'', ''AVPAVPF'')]\<rparr>) =
     Some (initial_globals\<lparr>profiles := Some ''AVPAVPF''\<rparr>) \<and>
   NUL \<notin> set ''AVPAVPF'' \<and> alnum_runs ''AVPAVPF'' = [''AVPAVPF''] \<and>
   \<not> valid_token ''AVPAVPF'' \<and>
   fst (main (example_env Next_other)
     (example_cli\<lparr>options := [(''rtsp-profiles'', ''AVPAVPF'')]\<rparr>)) = Return 3 \<and>
   profile_masks (snd (main (example_env Next_other)
     (example_cli\<lparr>options := [(''rtsp-profiles'', ''AVPAVPF'')]\<rparr>))) = []"
proof -
  have h1: "parsed_globals (example_env Next_other)
     (example_cli\<lparr>options := [(''rtsp-profiles'', ''AVPAVPF'')]\<rparr>) =
     Some (initial_globals\<lparr>profiles := Some ''AVPAVPF''\<rparr>)"
    by (simp add: example_defs)
  have h2: "profiles (initial_globals\<lparr>profiles := Some ''AVPAVPF''\<rparr>) = Some ''AVPAVPF''"
    by simp
  have h3: "NUL \<notin> set ''AVPAVPF''" by code_simp
  have r: "alnum_runs ''AVPAVPF'' = [''AVPAVPF'']" by code_simp
  have v: "\<not> valid_token ''AVPAVPF''" by code_simp
  from r v have h4: "(\<exists>r \<in> set (alnum_runs ''AVPAVPF''). \<not> valid_token r) \<or>
     (\<exists>pre t1 t2 post. ''AVPAVPF'' = pre @ t1 @ t2 @ post \<and> valid_token t1 \<and> valid_token t2)"
    by simp
  from invalid_profiles_rejected [OF h1 h2 h3 h4] h1 h3 r v show ?thesis by simp
qed

text \<open>
  C10. When \<open>main\<close> reaches the profile block with the empty profile string, the loop
  is left at its first test with the mask unchanged, \<open>gst_rtsp_media_factory_set_profiles\<close>
  is called once, with the all-zero mask, and the run does not return 3.
\<close>

theorem empty_profiles_accepted:
  assumes "parsed_globals e c = Some g" and "profiles g = Some []"
  shows "profiles_loop [] msk = Some msk \<and> parse_profiles [] = Some 0 \<and>
         fst (main e c) \<noteq> Return 3 \<and> profile_masks (snd (main e c)) = [0]"
proof -
  have "parse_profiles [] = Some 0"
    by (simp add: parse_profiles_def loop_Nil)
  then show ?thesis
    using main_create_eq(1,2) [OF assms(1), of undefined] assms(2)
    by (simp add: fst_main_create profile_masks_main_create loop_Nil)
qed

text \<open>C10 at \<open>--rtsp-profiles ""\<close>.\<close>

theorem empty_profiles_accepted_witness:
  "parsed_globals (example_env Next_other) (example_cli\<lparr>options := [(''rtsp-profiles'', [])]\<rparr>) =
     Some (initial_globals\<lparr>profiles := Some []\<rparr>) \<and>
   fst (main (example_env Next_other) (example_cli\<lparr>options := [(''rtsp-profiles'', [])]\<rparr>))
     \<noteq> Return 3 \<and>
   profile_masks (snd (main (example_env Next_other)
     (example_cli\<lparr>options := [(''rtsp-profiles'', [])]\<rparr>))) = [0]"
proof -
  have h1: "parsed_globals (example_env Next_other)
     (example_cli\<lparr>options := [(''rtsp-profiles'', [])]\<rparr>) =
     Some (initial_globals\<lparr>profiles := Some []\<rparr>)"
    by (simp add: example_defs)
  have h2: "profiles (initial_globals\<lparr>profiles := Some []\<rparr>) = Some []"
    by simp
  from empty_profiles_accepted [OF h1 h2, of 0] h1 show ?thesis by simp
qed

section \<open>Exit codes and the order of the start-up\<close>

text \<open>
  C5. The result of \<open>main\<close> is decided in this order: \<open>-1\<close> when option parsing fails or
  \<open>argv[1]\<close> is missing, whatever the options are; 3 when the profile string is rejected;
  4 when the retransmission time is rejected; 6 when attaching fails; otherwise the run
  enters the main loop, and 0 is returned only when that loop returns. Which strings are
  rejected is said by their syntax alone: for option strings without NUL, the result is 3
  exactly when the profile string is not a profile spec, and otherwise 4 exactly when the
  retransmission time is not a duration.
\<close>

theorem exit_codes:
  "fst (main e c) =
     (case parsed_globals e c of
        None \<Rightarrow> Return (- 1)
      | Some g \<Rightarrow>
          if (case profiles g of None \<Rightarrow> False | Some ps \<Rightarrow> parse_profiles ps = None)
          then Return 3
          else if (case retransmitTime g of None \<Rightarrow> False
                   | Some rt \<Rightarrow> parse_retransMs rt = None)
          then Return 4
          else if \<not> attach_succeeds e then Return 6
          else if loop_returns e then Return 0
          else Serving) \<and>
   (glib_error c \<noteq> None \<longrightarrow> fst (main e c) = Return (- 1)) \<and>
   (positional c = [] \<longrightarrow> fst (main e c) = Return (- 1)) \<and>
   (fst (main e c) = Return 0 \<longrightarrow> loop_returns e \<and> G_main_loop_run \<in> set (snd (main e c))) \<and>
   (parsed_globals e c = Some g \<and> c_strings g \<longrightarrow>
      fst (main e c) =
        (if (case profiles g of None \<Rightarrow> False | Some ps \<Rightarrow> \<not> profile_syntax ps)
         then Return 3
         else if (case retransmitTime g of None \<Rightarrow> False | Some rt \<Rightarrow> \<not> duration_syntax rt)
         then Return 4
         else if \<not> attach_succeeds e then Return 6
         else if loop_returns e then Return 0
         else Serving))"
proof -
  have old: "fst (main e c) =
     (case parsed_globals e c of
        None \<Rightarrow> Return (- 1)
      | Some g \<Rightarrow>
          if (case profiles g of None \<Rightarrow> False | Some ps \<Rightarrow> parse_profiles ps = None)
          then Return 3
          else if (case retransmitTime g of None \<Rightarrow> False
                   | Some rt \<Rightarrow> parse_retransMs rt = None)
          then Return 4
          else if \<not> attach_succeeds e then Return 6
          else if loop_returns e then Return 0
          else Serving) \<and>
   (glib_error c \<noteq> None \<longrightarrow> fst (main e c) = Return (- 1)) \<and>
   (positional c = [] \<longrightarrow> fst (main e c) = Return (- 1)) \<and>
   (fst (main e c) = Return 0 \<longrightarrow> loop_returns e \<and> G_main_loop_run \<in> set (snd (main e c)))"
  proof (cases "parsed_globals e c")
    case None
    then show ?thesis using main_not_parsed [OF None] by simp
  next
    case (Some g)
    from main_parsed [OF Some] obtain argv1 where
      m: "main e c = after [G_print (banner @ newline)] (main_create e g argv1)" by blast
    have np: "glib_error c = None" "positional c \<noteq> []"
      using Some parsed_globals_None [of c e] by (cases "glib_error c"; cases "positional c"; simp)+
    have "fst (main e c) = fst (main_create e g argv1)" by (simp add: m)
    moreover have "(G_main_loop_run \<in> set (snd (main e c))) =
       (fst (main e c) = Return 0 \<or> fst (main e c) = Serving)"
      by (simp add: m main_loop_run_iff)
    ultimately show ?thesis
      using np by (simp add: Some fst_main_create)
  qed
  have syn: "fst (main e c) =
        (if (case profiles g of None \<Rightarrow> False | Some ps \<Rightarrow> \<not> profile_syntax ps)
         then Return 3
         else if (case retransmitTime g of None \<Rightarrow> False | Some rt \<Rightarrow> \<not> duration_syntax rt)
         then Return 4
         else if \<not> attach_succeeds e then Return 6
         else if loop_returns e then Return 0
         else Serving)"
    if pg: "parsed_globals e c = Some g" and cs: "c_strings g"
  proof -
    have p: "(case profiles g of None \<Rightarrow> False | Some ps \<Rightarrow> parse_profiles ps = None) =
             (case profiles g of None \<Rightarrow> False | Some ps \<Rightarrow> \<not> profile_syntax ps)"
      using cs by (auto simp: c_strings_def parse_profiles_syntax split: option.splits)
    have r: "(case retransmitTime g of None \<Rightarrow> False | Some rt \<Rightarrow> parse_retransMs rt = None) =
             (case retransmitTime g of None \<Rightarrow> False | Some rt \<Rightarrow> \<not> duration_syntax rt)"
      using cs by (auto simp: c_strings_def parse_retransMs_syntax split: option.splits)
    from old pg show ?thesis by (simp add: p r)
  qed
  from old syn show ?thesis by blast
qed

text \<open>
  C5 at the example command line and its variants: \<open>-1\<close> without the pipeline and with an
  option error, 3 with the profiles \<open>XYZ\<close>, 4 with the retransmission time \<open>200ms\<close>, 6
  when attaching fails, 0 when the main loop returns, and a serving run otherwise.
\<close>

theorem exit_codes_witness:
  "fst (main (example_env Next_other) (example_cli\<lparr>positional := []\<rparr>)) = Return (- 1) \<and>
   fst (main (example_env Next_other)
     (example_cli\<lparr>glib_error := Some ''Missing argument for -p''\<rparr>)) = Return (- 1) \<and>
   fst (main (example_env Next_other)
     (example_cli\<lparr>options := [(''rtsp-profiles'', ''XYZ'')]\<rparr>)) = Return 3 \<and>
   fst (main (example_env Next_other)
     (example_cli\<lparr>options := [(''retransmission-time'', ''200ms'')]\<rparr>)) = Return 4 \<and>
   fst (main ((example_env Next_other)\<lparr>attach_succeeds := False\<rparr>) example_cli) = Return 6 \<and>
   fst (main ((example_env Next_other)\<lparr>loop_returns := True\<rparr>) example_cli) = Return 0 \<and>
   G_main_loop_run \<in> set (snd (main ((example_env Next_other)\<lparr>loop_returns := True\<rparr>)
     example_cli)) \<and>
   fst (main (example_env Next_other) example_cli) = Serving"
proof -
  note by_syntax = exit_codes [THEN conjunct2, THEN conjunct2, THEN conjunct2, THEN conjunct2,
    rule_format, OF conjI]
  have a: "positional (example_cli\<lparr>positional := []\<rparr>) = []"
    by simp
  have b: "glib_error (example_cli\<lparr>glib_error := Some ''Missing argument for -p''\<rparr>) \<noteq> None"
    by simp
  have syn: "\<not> profile_syntax ''XYZ''" "profile_syntax ''AVP+SAVP''"
    "\<not> duration_syntax ''200ms''" "duration_syntax ''150''"
    by code_simp+
  have g3: "parsed_globals (example_env Next_other)
      (example_cli\<lparr>options := [(''rtsp-profiles'', ''XYZ'')]\<rparr>) =
      Some (initial_globals\<lparr>profiles := Some ''XYZ''\<rparr>)"
    by (simp add: example_defs)
  have s3: "c_strings (initial_globals\<lparr>profiles := Some ''XYZ''\<rparr>)"
    by code_simp
  have g4: "parsed_globals (example_env Next_other)
      (example_cli\<lparr>options := [(''retransmission-time'', ''200ms'')]\<rparr>) =
      Some (initial_globals\<lparr>retransmitTime := Some ''200ms''\<rparr>)"
    by (simp add: example_defs)
  have s4: "c_strings (initial_globals\<lparr>retransmitTime := Some ''200ms''\<rparr>)"
    by code_simp
  define g0 where "g0 = \<lparr>port = ''9000'', mount = ''/video'', retransmitTime = Some ''150'',
           profiles = Some ''AVP+SAVP'', disable_rtcp = False\<rparr>"
  have g: "parsed_globals (e\<lparr>slot_after_mount := Next_other\<rparr>) example_cli = Some g0" for e
    by (simp add: example_defs g0_def)
  have s0: "c_strings g0"
    unfolding g0_def by code_simp
  have c3: "fst (main (example_env Next_other)
     (example_cli\<lparr>options := [(''rtsp-profiles'', ''XYZ'')]\<rparr>)) = Return 3"
    by (simp add: by_syntax [OF g3 s3] syn)
  have c4: "fst (main (example_env Next_other)
     (example_cli\<lparr>options := [(''retransmission-time'', ''200ms'')]\<rparr>)) = Return 4"
    by (simp add: by_syntax [OF g4 s4] syn initial_globals_def)
  have run: "fst (main (e\<lparr>slot_after_mount := Next_other\<rparr>) example_cli) =
      (if \<not> attach_succeeds e then Return 6 else if loop_returns e then Return 0 else Serving)"
    for e
    by (simp add: by_syntax [OF g s0] syn g0_def)
  have c6: "fst (main ((example_env Next_other)\<lparr>attach_succeeds := False\<rparr>) example_cli) = Return 6"
    using run [of "(example_env Next_other)\<lparr>attach_succeeds := False\<rparr>"]
    by (simp add: example_env_def)
  have c0: "fst (main ((example_env Next_other)\<lparr>loop_returns := True\<rparr>) example_cli) = Return 0"
    using run [of "(example_env Next_other)\<lparr>loop_returns := True\<rparr>"]
    by (simp add: example_env_def)
  have cs: "fst (main (example_env Next_other) example_cli) = Serving"
    using run [of "example_env Next_other"] by (simp add: example_env_def)
  have m1: "fst (main (example_env Next_other) (example_cli\<lparr>positional := []\<rparr>)) = Return (- 1)"
    by (rule exit_codes [THEN conjunct2, THEN conjunct2, THEN conjunct1, rule_format, OF a])
  have m2: "fst (main (example_env Next_other)
     (example_cli\<lparr>glib_error := Some ''Missing argument for -p''\<rparr>)) = Return (- 1)"
    by (rule exit_codes [THEN conjunct2, THEN conjunct1, rule_format, OF b])
  have lr: "G_main_loop_run \<in> set (snd (main ((example_env Next_other)\<lparr>loop_returns := True\<rparr>)
     example_cli))"
    using exit_codes [THEN conjunct2, THEN conjunct2, THEN conjunct2, THEN conjunct1,
      rule_format, OF c0] by simp
  from m1 m2 c3 c4 c6 c0 lr cs show ?thesis by (intro conjI)
qed

text \<open>
  C9. Without the pipeline argument \<open>main\<close> returns \<open>-1\<close> and has made no call that
  creates the server, fetches its mount points or creates the factory.
\<close>

theorem no_pipeline_no_server:
  assumes "positional c = []"
  shows "fst (main e c) = Return (- 1) \<and> (\<forall>x \<in> set (snd (main e c)). \<not> creates_object x)"
  using main_not_parsed [OF parsed_globals_None(2) [OF assms]]
    calls_not_parsed(4) [OF parsed_globals_None(2) [OF assms]]
  by blast

text \<open>C9 at the example command line without its pipeline.\<close>

theorem no_pipeline_no_server_witness:
  "positional (example_cli\<lparr>positional := []\<rparr>) = [] \<and>
   fst (main (example_env Next_other) (example_cli\<lparr>positional := []\<rparr>)) = Return (- 1) \<and>
   filter creates_object
     (snd (main (example_env Next_other) (example_cli\<lparr>positional := []\<rparr>))) = []"
proof -
  have a: "positional (example_cli\<lparr>positional := []\<rparr>) = []"
    by simp
  from no_pipeline_no_server [OF a, of "example_env Next_other"] a show ?thesis
    by (simp add: filter_empty_conv)
qed

text \<open>
  C8. The cleanup callback gets the session pool, has it cleaned up, drops its reference and
  returns \<open>TRUE\<close>; so after any number of intervals the timer is still scheduled and has made
  exactly these calls each time. \<open>main\<close> adds the timer only with an interval of 5 seconds,
  only when attaching has succeeded, and after the call that attaches the server; a run that
  enters the main loop has added it.
\<close>

theorem reaper_after_attach:
  "timeout = ([Gst_rtsp_server_get_session_pool, Gst_rtsp_session_pool_cleanup,
               G_object_unref_pool], True) \<and>
   fire n = (True, concat (replicate n (fst timeout))) \<and>
   (G_timeout_add_seconds k \<in> set (snd (main e c)) \<longrightarrow>
      k = 5 \<and> attach_succeeds e \<and> Gst_rtsp_server_attach \<in> set (before_timer (snd (main e c)))) \<and>
   (fst (main e c) = Serving \<or> fst (main e c) = Return 0 \<longrightarrow>
      G_timeout_add_seconds 5 \<in> set (snd (main e c)))"
proof -
  have sched: "(G_timeout_add_seconds k \<in> set (snd (main e c)) \<longrightarrow>
      k = 5 \<and> attach_succeeds e \<and> Gst_rtsp_server_attach \<in> set (before_timer (snd (main e c)))) \<and>
   (fst (main e c) = Serving \<or> fst (main e c) = Return 0 \<longrightarrow>
      G_timeout_add_seconds 5 \<in> set (snd (main e c)))"
  proof (cases "parsed_globals e c")
    case None
    then show ?thesis
      using main_not_parsed [OF None] calls_not_parsed(5) [OF None] by simp
  next
    case (Some g)
    from main_parsed [OF Some] obtain argv1 where
      m: "main e c = after [G_print (banner @ newline)] (main_create e g argv1)" by blast
    have a: "Gst_rtsp_server_attach \<in> set (before_timer (snd (main e c)))"
      if "G_timeout_add_seconds 5 \<in> set (snd (main e c))"
      using that before_timer_main_create [of e g argv1 "banner @ newline"] by (simp add: m)
    have b: "(G_timeout_add_seconds k \<in> set (snd (main e c))) =
       (k = 5 \<and> attach_succeeds e \<and> fst (main e c) \<noteq> Return 3 \<and> fst (main e c) \<noteq> Return 4)"
      for k by (simp add: m timer_main_create)
    have c: "attach_succeeds e" if "fst (main e c) = Serving \<or> fst (main e c) = Return 0"
      using that by (auto simp add: m fst_main_create split: if_splits)
    show ?thesis
    proof (intro conjI impI)
      assume t: "G_timeout_add_seconds k \<in> set (snd (main e c))"
      then show "k = 5" and "attach_succeeds e" by (simp_all add: b)
      with t a show "Gst_rtsp_server_attach \<in> set (before_timer (snd (main e c)))" by simp
    next
      assume r: "fst (main e c) = Serving \<or> fst (main e c) = Return 0"
      with c have "attach_succeeds e" by simp
      with r show "G_timeout_add_seconds 5 \<in> set (snd (main e c))" by (auto simp: b)
    qed
  qed
  have "timeout = ([Gst_rtsp_server_get_session_pool, Gst_rtsp_session_pool_cleanup,
               G_object_unref_pool], True)"
    by (simp add: timeout_def)
  with sched fire_all [of n] show ?thesis by blast
qed

text \<open>C8 at the example command line: the timer is added, after the attach.\<close>

theorem reaper_after_attach_witness:
  "fst (main (example_env Next_other) example_cli) = Serving \<and>
   G_timeout_add_seconds 5 \<in> set (snd (main (example_env Next_other) example_cli)) \<and>
   attach_succeeds (example_env Next_other) \<and>
   Gst_rtsp_server_attach \<in> set (before_timer (snd (main (example_env Next_other) example_cli)))"
proof -
  have "fst (main (example_env Next_other) example_cli) = Serving"
    using main_create_eq(1) [OF example_globals [of Next_other], of undefined]
    by (simp add: fst_main_create example_profiles example_retransMs example_env_def)
  with reaper_after_attach [of 0 5 "example_env Next_other" example_cli] show ?thesis
    by simp
qed

section \<open>The retransmission time and the mount path\<close>

text \<open>
  C7. When \<open>main\<close> gets past the profile block and the retransmission time string is
  converted to \<open>v\<close>, the one retransmission time set on the factory is \<open>v\<close> times
  \<open>GST_MSECOND\<close> in 64-bit unsigned arithmetic, that is modulo \<open>2 ^ 64\<close>, and no call of
  the run sets a retransmission flag apart from it.
\<close>

theorem retransmission_time_stored:
  assumes "parsed_globals e c = Some g" and "retransmitTime g = Some rt"
    and "parse_retransMs rt = Some v" and "fst (main e c) \<noteq> Return 3"
  shows "retransmission_times (snd (main e c)) = [v * GST_MSECOND] \<and>
         unat (v * GST_MSECOND) = (unat v * 1000000) mod 2 ^ 64 \<and>
         (\<forall>b. Gst_rtsp_media_factory_set_do_retransmission b \<notin> set (snd (main e c)))"
proof -
  have "unat (v * GST_MSECOND) = (unat v * 1000000) mod 2 ^ 64"
    by (simp add: GST_MSECOND_def unat_word_ariths)
  moreover from main_parsed [OF assms(1)] obtain argv1 where
    m: "main e c = after [G_print (banner @ newline)] (main_create e g argv1)" by blast
  have "\<forall>b. Gst_rtsp_media_factory_set_do_retransmission b \<notin> set (snd (main e c))"
    by (simp add: m no_do_retransmission_main_create)
  moreover have "retransmission_times (snd (main e c)) = [v * GST_MSECOND]"
    using main_create_eq(1,3) [OF assms(1), of undefined] assms(2,3,4)
    by (simp add: fst_main_create retransmission_times_main_create split: if_splits)
  ultimately show ?thesis by blast
qed

text \<open>C7 at the example command line: 150 ms are stored as 150000000 ns.\<close>

theorem retransmission_time_stored_witness:
  "parsed_globals (example_env Next_other) example_cli =
     Some \<lparr>port = ''9000'', mount = ''/video'', retransmitTime = Some ''150'',
           profiles = Some ''AVP+SAVP'', disable_rtcp = False\<rparr> \<and>
   parse_retransMs ''150'' = Some 150 \<and>
   fst (main (example_env Next_other) example_cli) \<noteq> Return 3 \<and>
   retransmission_times (snd (main (example_env Next_other) example_cli)) = [150000000]"
proof -
  have h1: "parsed_globals (example_env Next_other) example_cli =
     Some \<lparr>port = ''9000'', mount = ''/video'', retransmitTime = Some ''150'',
           profiles = Some ''AVP+SAVP'', disable_rtcp = False\<rparr>"
    using example_globals [of Next_other] by simp
  have h4: "fst (main (example_env Next_other) example_cli) \<noteq> Return 3"
    using main_create_eq(1) [OF h1, of undefined]
    by (simp add: fst_main_create example_profiles example_retransMs example_env_def)
  from retransmission_time_stored [OF h1 _ example_retransMs h4] h1 h4 example_retransMs
  show ?thesis by (simp add: GST_MSECOND_def)
qed

text \<open>
  C3 does not hold of the code. The \<open>endpoint\<close> entry stores its argument at
  \<open>&mount+1\<close>, the slot after the variable \<open>mount\<close>, so \<open>mount\<close> keeps \<open>/video\<close>:
  whatever the command line and whatever lies after \<open>mount\<close>, a run mounts nothing or the
  path \<open>/video\<close>. With \<open>--port 9000 --endpoint cam1\<close> of the example the run serves,
  the mounted path is \<open>/video\<close>, and the last message printed ends in \<open>/video\<close>, after
  the port 9000, or after \<open>cam1\<close> when \<open>port\<close> is the variable that follows \<open>mount\<close>.
\<close>

theorem endpoint_not_mounted:
  "(mounted_paths (snd (main e c)) = [] \<or> mounted_paths (snd (main e c)) = [''/video'']) \<and>
   fst (main (example_env nb) example_cli) = Serving \<and>
   mounted_paths (snd (main (example_env nb) example_cli)) = [''/video''] \<and>
   last (printed (snd (main (example_env nb) example_cli))) =
     ''Stream ready at rtsp://127.0.0.1:'' @ (if nb = Next_port then ''cam1'' else ''9000'')
       @ ''/video'' @ newline"
proof -
  have gen: "mounted_paths (snd (main e c)) = [] \<or> mounted_paths (snd (main e c)) = [''/video'']"
  proof (cases "parsed_globals e c")
    case None
    then show ?thesis by (simp add: calls_not_parsed)
  next
    case (Some g)
    from main_parsed [OF Some] obtain argv1 where
      "main e c = after [G_print (banner @ newline)] (main_create e g argv1)" by blast
    then show ?thesis
      using parsed_globals_mount [OF Some]
      by (simp add: mounted_paths_main_create DEFAULT_ENDPOINT_def)
  qed
  define g where "g = \<lparr>port = (if nb = Next_port then ''cam1'' else ''9000''), mount = ''/video'',
           retransmitTime = Some ''150'', profiles = Some ''AVP+SAVP'', disable_rtcp = False\<rparr>"
  have pg: "parsed_globals (example_env nb) example_cli = Some g"
    unfolding g_def by (rule example_globals)
  from main_parsed [OF pg] obtain argv1 where
    m: "main (example_env nb) example_cli = after [G_print (banner @ newline)]
          (main_create (example_env nb) g argv1)" by blast
  have f: "fst (main_create (example_env nb) g argv1) = Serving"
    by (simp add: fst_main_create example_profiles example_retransMs example_env_def g_def)
  have "printed (snd (main (example_env nb) example_cli)) =
     [banner @ newline, ''Pipeline: '' @ argv1 @ newline,
      ''Stream ready at rtsp://127.0.0.1:'' @ port g @ mount g @ newline]"
    unfolding m by (simp add: printed_main_create [OF f])
  then have "last (printed (snd (main (example_env nb) example_cli))) =
     ''Stream ready at rtsp://127.0.0.1:'' @ port g @ mount g @ newline"
    by simp
  moreover have "mounted_paths (snd (main (example_env nb) example_cli)) = [''/video'']"
    unfolding m using f by (simp add: mounted_paths_main_create g_def)
  moreover have "fst (main (example_env nb) example_cli) = Serving"
    unfolding m using f by simp
  ultimately show ?thesis using gen by (simp add: g_def)
qed

section \<open>The duration parser\<close>

text \<open>
  C2 as stated fails: \<open>0x10\<close> is not a pure digit string and is accepted, as 16, and the
  pure digit string \<open>08\<close> is rejected, since the conversion is made with base 0.
\<close>

theorem pure_digits_counterexample:
  "\<not> pure_digits ''0x10'' \<and> parse_retransMs ''0x10'' = Some 16 \<and>
   pure_digits ''08'' \<and> parse_retransMs ''08'' = None"
  by code_simp

text \<open>
  C2, amended. The duration parser converts with \<open>strtoull\<close> and base 0. It accepts exactly
  the strings made of optional white space, an optional sign and a numeral that is decimal,
  or octal after a leading 0, or hexadecimal after \<open>0x\<close> or \<open>0X\<close>; every other string
  fails, because no digit is converted or a character is left after the numeral. So a string
  whose last character is not a hexadecimal digit, such as a unit, a sign or a space, is
  rejected. A pure digit string that does not start with 0 and denotes at most
  \<open>ULLONG_MAX\<close> gives the number it denotes in decimal: \<open>200\<close> gives 200, while
  \<open>200ms\<close> and the empty string are rejected. The string is a C string: it holds no NUL.
\<close>

theorem duration_syntax_accepted:
  assumes "NUL \<notin> set s"
  shows "(parse_retransMs s \<noteq> None) = duration_syntax s \<and>
         (parse_retransMs s \<noteq> None \<longrightarrow> s \<noteq> [] \<and> isxdigit (last s)) \<and>
         (pure_digits s \<and> hd s \<noteq> CHR ''0'' \<and> decimal_value s \<le> ULLONG_MAX \<longrightarrow>
            parse_retransMs s = Some (of_nat (decimal_value s))) \<and>
         parse_retransMs ''200'' = Some 200 \<and> parse_retransMs ''200ms'' = None \<and>
         parse_retransMs [] = None"
proof -
  have a: "(parse_retransMs s \<noteq> None) = duration_syntax s"
    using assms by (rule accept_iff)
  have b: "parse_retransMs s \<noteq> None \<longrightarrow> s \<noteq> [] \<and> isxdigit (last s)"
    using a duration_syntax_last [of s] by blast
  have c: "pure_digits s \<and> hd s \<noteq> CHR ''0'' \<and> decimal_value s \<le> ULLONG_MAX \<longrightarrow>
            parse_retransMs s = Some (of_nat (decimal_value s))"
    using pure_digits_value [of s] by blast
  have d: "parse_retransMs ''200'' = Some 200" by code_simp
  have e: "parse_retransMs ''200ms'' = None" by code_simp
  have f: "parse_retransMs [] = None" by code_simp
  from a b c d e f show ?thesis by blast
qed

text \<open>C2, amended, at the string \<open>200\<close>.\<close>

theorem duration_syntax_accepted_witness:
  "NUL \<notin> set ''200'' \<and> duration_syntax ''200'' \<and> pure_digits ''200'' \<and>
   hd ''200'' \<noteq> CHR ''0'' \<and> decimal_value ''200'' = 200 \<and> isxdigit (last ''200'') \<and>
   parse_retransMs ''200'' = Some 200"
proof -
  have h: "NUL \<notin> set ''200''" by code_simp
  have p: "pure_digits ''200''" by code_simp
  have v: "decimal_value ''200'' = 200" by code_simp
  have u: "(200::nat) \<le> ULLONG_MAX" by (simp add: ULLONG_MAX_def)
  from duration_syntax_accepted [OF h] h p v u show ?thesis by auto
qed

end
